theory Spec2Isabelle
  imports Complex_Main "HOL-Library.Multiset"
begin

section \<open>Calendar dates\<close>

text \<open>
  \<^verbatim>\<open>target_date = datetime.strptime(comparison_date, '%m-%d-%Y')\<close> is a naive datetime
  at midnight. It is represented by its proleptic Gregorian ordinal, the number that
  \<^verbatim>\<open>date.toordinal()\<close> returns (0001-01-01 is day 1, 9999-12-31 is day 3652059).
  Python computes \<^verbatim>\<open>weekday()\<close> as \<^verbatim>\<open>(toordinal() + 6) % 7\<close>, Monday being 0, and
  adding a \<^verbatim>\<open>timedelta(days=k)\<close> moves the ordinal by k, raising OverflowError when the
  result leaves the supported range.
\<close>

datatype error = OverflowError | TypeError | IndexError | ProviderError

definition MAXORD :: int where
  "MAXORD = 3652059"

definition valid_date :: "int \<Rightarrow> bool" where
  "valid_date d = (1 \<le> d \<and> d \<le> MAXORD)"

definition weekday :: "int \<Rightarrow> int" where
  "weekday d = (d + 6) mod 7"

definition add_days :: "int \<Rightarrow> int \<Rightarrow> error + int" where
  "add_days d k = (if valid_date (d + k) then Inr (d + k) else Inl OverflowError)"

text \<open>
  The ordinal of a calendar date, as \<^verbatim>\<open>datetime(y, m, d).toordinal()\<close> computes it; used
  to write the dates of the examples in year, month, day form.
\<close>

definition is_leap :: "int \<Rightarrow> bool" where
  "is_leap y = (y mod 4 = 0 \<and> (y mod 100 \<noteq> 0 \<or> y mod 400 = 0))"

definition days_before_year :: "int \<Rightarrow> int" where
  "days_before_year y = (y - 1) * 365 + (y - 1) div 4 - (y - 1) div 100 + (y - 1) div 400"

definition days_before_month :: "int \<Rightarrow> int \<Rightarrow> int" where
  "days_before_month y m =
     [0, 31, 59, 90, 120, 151, 181, 212, 243, 273, 304, 334] ! nat (m - 1)
       + (if m > 2 \<and> is_leap y then 1 else 0)"

definition ymd2ord :: "int \<Rightarrow> int \<Rightarrow> int \<Rightarrow> int" where
  "ymd2ord y m d = days_before_year y + days_before_month y m + d"

text \<open>
  Lines 34 to 37: the comparison day is three days back on a Monday and one day back
  otherwise. The subtraction is outside the \<^verbatim>\<open>try\<close> block, so its OverflowError leaves
  the function.
\<close>

definition prev_day_of :: "int \<Rightarrow> error + int" where
  "prev_day_of target_date =
     (if weekday target_date = 0 then add_days target_date (- 3)
      else add_days target_date (- 1))"

section \<open>Price bars and time zones\<close>

text \<open>
  An instant is a number of seconds on the ordinal scale in UTC (day d starts at
  \<open>d * 86400\<close>). A time zone gives the UTC offset, in seconds, in force at an instant.
  A frame is the table that \<^verbatim>\<open>yf.Ticker(symbol).history(...)\<close> returns: its index (the
  bar timestamps, with the zone of the index, absent for a naive index) and the Close
  column, the only column the calculation reads. Rows are kept in the order of the frame.
\<close>

type_synonym tz = "int \<Rightarrow> int"

record 'f bar =
  stamp :: int
  Close :: 'f

record 'f frame =
  index_tz :: "tz option"
  bars :: "'f bar list"

definition local_date :: "tz \<Rightarrow> int \<Rightarrow> int" where
  "local_date z t = (t + z t) div 86400"

definition two_digits :: "int \<Rightarrow> string" where
  "two_digits n = [''0123456789'' ! nat (n div 10), ''0123456789'' ! nat (n mod 10)]"

text \<open>\<^verbatim>\<open>strftime('%H:%M')\<close> of an instant read in a zone.\<close>

definition strftime_HM :: "tz \<Rightarrow> int \<Rightarrow> string" where
  "strftime_HM z t =
     (let s = (t + z t) mod 86400
      in two_digits (s div 3600) @ '':'' @ two_digits ((s mod 3600) div 60))"

section \<open>The result table and what lies outside the repository\<close>

record 'f row =
  Symbol :: string
  Previous_Close :: 'f
  Target_Price :: 'f
  Return_pct :: 'f

text \<open>
  The calculation runs on numpy floats, on the America/New_York rules of the zone
  database, on pandas' \<^verbatim>\<open>sort_values\<close> and on the price history service. None of them is
  code of the repository, so each is a parameter: \<open>'f\<close> is the type of the float values,
  \<open>f_sub\<close>, \<open>f_div\<close>, \<open>f_mul\<close> are \<^verbatim>\<open>-\<close>, \<^verbatim>\<open>/\<close>, \<^verbatim>\<open>*\<close> on them (total: a numpy division
  by zero yields inf or nan, it does not raise), \<open>hundred\<close> is the literal 100,
  \<open>round2\<close> is \<^verbatim>\<open>round(x, 2)\<close>, \<open>New_York\<close> is the zone \<^verbatim>\<open>'America/New_York'\<close>,
  \<open>sort_values\<close> is \<^verbatim>\<open>df.sort_values('Return (%)', ascending=False)\<close> followed by the index
  reset, and \<open>history\<close> is \<^verbatim>\<open>yf.Ticker(symbol).history(start, end, interval='1h')\<close>,
  which returns a frame or raises.
\<close>

record 'f externals =
  f_sub :: "'f \<Rightarrow> 'f \<Rightarrow> 'f"
  f_div :: "'f \<Rightarrow> 'f \<Rightarrow> 'f"
  f_mul :: "'f \<Rightarrow> 'f \<Rightarrow> 'f"
  hundred :: 'f
  round2 :: "'f \<Rightarrow> 'f"
  New_York :: tz
  sort_values :: "'f row list \<Rightarrow> 'f row list"
  history :: "string \<Rightarrow> int \<Rightarrow> int \<Rightarrow> error + 'f frame"

section \<open>calculate\_stock\_returns\<close>

text \<open>
  Lines 63 to 65. The rows of the target date are chosen by the date of the index as the
  service returned it; only the chosen rows are then converted to New York time, and the
  time of day is compared there with the \<^verbatim>\<open>comparison_time\<close> string. Two formatted dates
  are equal exactly when the days are, so the date test compares ordinals (for years from
  1000 on, where both sides print four digits; price histories hold no earlier bar).
  \<^verbatim>\<open>tz_convert\<close> raises TypeError on a naive index.
\<close>

definition target_date_data :: "tz \<Rightarrow> int \<Rightarrow> 'f bar list \<Rightarrow> 'f bar list" where
  "target_date_data z target_date bs = filter (\<lambda>b. local_date z (stamp b) = target_date) bs"

definition at_comparison_time :: "tz \<Rightarrow> string \<Rightarrow> 'f bar list \<Rightarrow> 'f bar list" where
  "at_comparison_time ny comparison_time bs =
     filter (\<lambda>b. strftime_HM ny (stamp b) = comparison_time) bs"

definition target_time_price :: "'f externals \<Rightarrow> int \<Rightarrow> string \<Rightarrow> 'f frame \<Rightarrow> error + 'f" where
  "target_time_price X target_date comparison_time ticker =
     (case index_tz ticker of
        None \<Rightarrow> Inl TypeError
      | Some z \<Rightarrow>
          (case at_comparison_time (New_York X) comparison_time
                  (target_date_data z target_date (bars ticker)) of
             [] \<Rightarrow> Inl IndexError
           | b # _ \<Rightarrow> Inr (Close b)))"

text \<open>
  Lines 68 and 69. The rows of the previous day are chosen by the date of the index as
  returned (line 68 reads \<^verbatim>\<open>ticker.index\<close>, which line 64 did not convert; a naive
  index is read as it stands), and \<^verbatim>\<open>iloc[-1]\<close> reads the last of them, raising
  IndexError when there is none.
\<close>

definition index_zone :: "'f frame \<Rightarrow> tz" where
  "index_zone ticker = (case index_tz ticker of None \<Rightarrow> (\<lambda>t. 0) | Some z \<Rightarrow> z)"

definition prev_day_data :: "tz \<Rightarrow> int \<Rightarrow> 'f bar list \<Rightarrow> 'f bar list" where
  "prev_day_data z prev_day bs = filter (\<lambda>b. local_date z (stamp b) = prev_day) bs"

definition prev_day_close :: "int \<Rightarrow> 'f frame \<Rightarrow> error + 'f" where
  "prev_day_close prev_day ticker =
     (if prev_day_data (index_zone ticker) prev_day (bars ticker) = [] then Inl IndexError
      else Inr (Close (last (prev_day_data (index_zone ticker) prev_day (bars ticker)))))"

text \<open>Line 71.\<close>

definition returns_pct :: "'f externals \<Rightarrow> 'f \<Rightarrow> 'f \<Rightarrow> 'f" where
  "returns_pct X target_price prev_close =
     f_mul X (f_div X (f_sub X target_price prev_close) prev_close) (hundred X)"

text \<open>
  Lines 59 to 76 for one symbol: the frame asked of the service, or the exception that
  ends the \<^verbatim>\<open>try\<close> block, then the row appended to the four columns.
\<close>

definition process_ticker ::
  "'f externals \<Rightarrow> int \<Rightarrow> int \<Rightarrow> string \<Rightarrow> string \<Rightarrow> error + 'f frame \<Rightarrow> error + 'f row" where
  "process_ticker X target_date prev_day comparison_time symbol fetched =
     (case fetched of
        Inl e \<Rightarrow> Inl e
      | Inr ticker \<Rightarrow>
          (case target_time_price X target_date comparison_time ticker of
             Inl e \<Rightarrow> Inl e
           | Inr t \<Rightarrow>
               (case prev_day_close prev_day ticker of
                  Inl e \<Rightarrow> Inl e
                | Inr p \<Rightarrow>
                    Inr \<lparr>Symbol = symbol,
                         Previous_Close = round2 X p,
                         Target_Price = round2 X t,
                         Return_pct = round2 X (returns_pct X t p)\<rparr>)))"

text \<open>
  The state of the loop: the columns filled so far, as a list of rows (the four lists are
  always appended to together), and the requests sent to the price history service.
\<close>

record 'f run =
  results :: "'f row list"
  requests :: "(string \<times> int \<times> int) list"

text \<open>
  The \<^verbatim>\<open>try\<close> block for one symbol: the requests it sends and the row it builds, or
  the exception that ends it. \<^verbatim>\<open>target_date + timedelta(days=1)\<close> is evaluated inside
  the block, before the call.
\<close>

definition try_block ::
  "'f externals \<Rightarrow> int \<Rightarrow> int \<Rightarrow> string \<Rightarrow> string
     \<Rightarrow> (string \<times> int \<times> int) list \<times> (error + 'f row)" where
  "try_block X target_date prev_day comparison_time symbol =
     (case add_days target_date 1 of
        Inl e \<Rightarrow> ([], Inl e)
      | Inr end_day \<Rightarrow>
          ([(symbol, prev_day, end_day)],
           process_ticker X target_date prev_day comparison_time symbol
             (history X symbol prev_day end_day)))"

text \<open>One pass of the loop: \<^verbatim>\<open>except Exception: continue\<close> drops the symbol and goes on.\<close>

definition loop_body ::
  "'f externals \<Rightarrow> int \<Rightarrow> int \<Rightarrow> string \<Rightarrow> 'f run \<Rightarrow> string \<Rightarrow> 'f run" where
  "loop_body X target_date prev_day comparison_time st symbol =
     (case try_block X target_date prev_day comparison_time symbol of
        (sent, Inl e) \<Rightarrow> st\<lparr>requests := requests st @ sent\<rparr>
      | (sent, Inr r) \<Rightarrow> st\<lparr>results := results st @ [r], requests := requests st @ sent\<rparr>)"

fun for_loop ::
  "'f externals \<Rightarrow> int \<Rightarrow> int \<Rightarrow> string \<Rightarrow> string list \<Rightarrow> 'f run \<Rightarrow> 'f run" where
  "for_loop X target_date prev_day comparison_time [] st = st"
| "for_loop X target_date prev_day comparison_time (symbol # rest) st =
     for_loop X target_date prev_day comparison_time rest
       (loop_body X target_date prev_day comparison_time st symbol)"

text \<open>
  The function from line 28 on, for a parsed \<open>target_date\<close> and a given
  \<open>comparison_time\<close> string (the defaults of lines 22 to 26 read the clock and are
  left to the caller). An empty \<^verbatim>\<open>pd.DataFrame()\<close> is the empty list of rows. The
  progress bar, the status text and the warnings are presentation and are not modelled;
  when no row was collected the requests already sent remain sent.
\<close>

definition calculate_stock_returns ::
  "'f externals \<Rightarrow> string list \<Rightarrow> int \<Rightarrow> string \<Rightarrow> error + 'f run" where
  "calculate_stock_returns X stock_list target_date comparison_time =
     (if weekday target_date \<ge> 5 then Inr \<lparr>results = [], requests = []\<rparr>
      else
        (case prev_day_of target_date of
           Inl e \<Rightarrow> Inl e
         | Inr prev_day \<Rightarrow>
             (let st = for_loop X target_date prev_day comparison_time stock_list
                         \<lparr>results = [], requests = []\<rparr>
              in if results st = [] then Inr (st\<lparr>results := []\<rparr>)
                 else Inr (st\<lparr>results := sort_values X (results st)\<rparr>))))"

section \<open>The symbol list built by main\<close>

text \<open>
  Lines 133 and 134:
  \<^verbatim>\<open>[s.strip().upper() for s in stock_input.split('\n') if s.strip()]\<close>, on ASCII text
  (outside ASCII Python knows further white space and letters, which are not modelled).
  \<^verbatim>\<open>split\<close> cuts at every newline and always returns at least one piece; \<^verbatim>\<open>strip\<close> removes
  the white space at both ends (tab to carriage return, the four separators 28 to 31 and
  the blank); \<^verbatim>\<open>upper\<close> maps a to z onto A to Z.
\<close>

definition newline :: char where
  "newline = CHR 0x0A"

fun split_on :: "char \<Rightarrow> string \<Rightarrow> string list" where
  "split_on c [] = [[]]"
| "split_on c (x # xs) =
     (if x = c then [] # split_on c xs
      else (case split_on c xs of [] \<Rightarrow> [[x]] | l # ls \<Rightarrow> (x # l) # ls))"

definition is_space :: "char \<Rightarrow> bool" where
  "is_space c = (let n = (of_char c :: nat) in (9 \<le> n \<and> n \<le> 13) \<or> (28 \<le> n \<and> n \<le> 32))"

definition strip :: "string \<Rightarrow> string" where
  "strip s = rev (dropWhile is_space (rev (dropWhile is_space s)))"

definition upper_char :: "char \<Rightarrow> char" where
  "upper_char c =
     (let n = (of_char c :: nat) in if 97 \<le> n \<and> n \<le> 122 then char_of (n - 32) else c)"

definition upper :: "string \<Rightarrow> string" where
  "upper s = map upper_char s"

definition stocks_list_of :: "string \<Rightarrow> string list" where
  "stocks_list_of stock_input =
     (if stock_input = [] then []
      else map (\<lambda>s. upper (strip s)) (filter (\<lambda>s. strip s \<noteq> []) (split_on newline stock_input)))"

text \<open>\<^verbatim>\<open>'\n'.join(lines)\<close>, the text a user types as one symbol per line.\<close>

fun join_lines :: "string list \<Rightarrow> string" where
  "join_lines [] = []"
| "join_lines [l] = l"
| "join_lines (l # ls) = l @ newline # join_lines ls"

section \<open>What the library calls are relied on for\<close>

text \<open>
  \<^verbatim>\<open>sort_values\<close> returns the rows it was given, rearranged. The call leaves the sorting
  algorithm at the library's default, which is not documented as stable.
\<close>

definition rearranges :: "'f externals \<Rightarrow> bool" where
  "rearranges X = (\<forall>rows. mset (sort_values X rows) = mset rows)"

text \<open>
  How pandas orders a frame by one column with \<^verbatim>\<open>ascending=False\<close> and the default
  \<^verbatim>\<open>na_position='last'\<close> (\<^verbatim>\<open>nargsort\<close> in \<^verbatim>\<open>pandas.core.sorting\<close>, then \<^verbatim>\<open>take\<close>): the
  positions whose value is NaN are set aside, the other positions are reversed, numpy's
  \<^verbatim>\<open>argsort\<close> orders their values upwards, the outcome is reversed again, and the NaN
  positions are appended in their original order. \<open>isnan\<close> and \<open>argsort\<close> are numpy's
  and are parameters.
\<close>

definition nargsort :: "('f \<Rightarrow> bool) \<Rightarrow> ('f list \<Rightarrow> nat list) \<Rightarrow> 'f list \<Rightarrow> nat list" where
  "nargsort isnan argsort items =
     (let idx = [0..<length items];
          non_nan_idx = rev (filter (\<lambda>i. \<not> isnan (items ! i)) idx);
          nan_idx = filter (\<lambda>i. isnan (items ! i)) idx;
          non_nans = map (\<lambda>i. items ! i) non_nan_idx
      in rev (map (\<lambda>i. non_nan_idx ! i) (argsort non_nans)) @ nan_idx)"

definition pandas_sort_values ::
  "('f \<Rightarrow> bool) \<Rightarrow> ('f list \<Rightarrow> nat list) \<Rightarrow> 'f row list \<Rightarrow> 'f row list" where
  "pandas_sort_values isnan argsort rows =
     map (\<lambda>i. rows ! i) (nargsort isnan argsort (map Return_pct rows))"

text \<open>
  What \<^verbatim>\<open>argsort\<close> is relied on for: on values without NaN it returns every position once,
  in an order in which the values do not decrease. Nothing is assumed about positions
  with equal values.
\<close>

definition argsort_ascending ::
  "('f \<Rightarrow> 'f \<Rightarrow> bool) \<Rightarrow> ('f \<Rightarrow> bool) \<Rightarrow> ('f list \<Rightarrow> nat list) \<Rightarrow> bool" where
  "argsort_ascending le isnan argsort =
     (\<forall>ks. (\<forall>k \<in> set ks. \<not> isnan k)
        \<longrightarrow> mset (argsort ks) = mset [0..<length ks]
          \<and> sorted_wrt (\<lambda>i j. le (ks ! i) (ks ! j)) (argsort ks))"

text \<open>
  \<open>le\<close> and \<open>lt\<close> order the values that are not NaN: any two are comparable, the order
  is transitive, and \<open>lt\<close> is its strict part.
\<close>

definition float_order ::
  "('f \<Rightarrow> 'f \<Rightarrow> bool) \<Rightarrow> ('f \<Rightarrow> 'f \<Rightarrow> bool) \<Rightarrow> ('f \<Rightarrow> bool) \<Rightarrow> bool" where
  "float_order le lt isnan =
     ((\<forall>a b. \<not> isnan a \<and> \<not> isnan b \<longrightarrow> (le a b \<or> le b a) \<and> (lt a b \<longleftrightarrow> \<not> le b a))
      \<and> (\<forall>a b c. \<not> isnan a \<and> \<not> isnan b \<and> \<not> isnan c \<and> le a b \<and> le b c \<longrightarrow> le a c))"

text \<open>
  Two of numpy's routines for short arrays. The scalar one is an insertion sort: each
  position moves left past the positions whose value is greater. The vector one, taken on
  processors with vector instructions, puts four values through a bitonic network of
  compare and exchange steps on the lanes (0,1) (2,3), (0,3) (1,2), (0,1) (2,3); a step
  exchanges two positions only when their values are out of order. \<open>vector_argsort\<close> uses
  the network for four values and the insertion sort for every other length (for up to
  three values the padded network gives the same order; longer arrays go through larger
  networks, which are not modelled).
\<close>

fun insert_arg :: "('f \<Rightarrow> 'f \<Rightarrow> bool) \<Rightarrow> 'f list \<Rightarrow> nat \<Rightarrow> nat list \<Rightarrow> nat list" where
  "insert_arg lt ks i [] = [i]"
| "insert_arg lt ks i (j # js) =
     (if lt (ks ! i) (ks ! j) then i # j # js else j # insert_arg lt ks i js)"

definition insertion_argsort :: "('f \<Rightarrow> 'f \<Rightarrow> bool) \<Rightarrow> 'f list \<Rightarrow> nat list" where
  "insertion_argsort lt ks = foldl (\<lambda>acc i. insert_arg lt ks i acc) [] [0..<length ks]"

definition compare_exchange ::
  "('f \<Rightarrow> 'f \<Rightarrow> bool) \<Rightarrow> 'f list \<Rightarrow> nat list \<Rightarrow> nat \<times> nat \<Rightarrow> nat list" where
  "compare_exchange lt ks arg p =
     (case p of (i, j) \<Rightarrow>
        if lt (ks ! (arg ! j)) (ks ! (arg ! i)) then arg[i := arg ! j, j := arg ! i] else arg)"

definition bitonic4 :: "('f \<Rightarrow> 'f \<Rightarrow> bool) \<Rightarrow> 'f list \<Rightarrow> nat list" where
  "bitonic4 lt ks =
     foldl (compare_exchange lt ks) [0, 1, 2, 3] [(0, 1), (2, 3), (0, 3), (1, 2), (0, 1), (2, 3)]"

definition vector_argsort :: "('f \<Rightarrow> 'f \<Rightarrow> bool) \<Rightarrow> 'f list \<Rightarrow> nat list" where
  "vector_argsort lt ks = (if length ks = 4 then bitonic4 lt ks else insertion_argsort lt ks)"

text \<open>
  The reasons for which the \<^verbatim>\<open>try\<close> block of a symbol raises, read off the data: the day
  after the target date is out of range, the service raises, the index is naive, no bar of
  the target date stands at the comparison time, or no bar has the comparison day as its
  date.
\<close>

definition raises :: "'f externals \<Rightarrow> int \<Rightarrow> int \<Rightarrow> string \<Rightarrow> string \<Rightarrow> bool" where
  "raises X target_date prev_day comparison_time symbol =
     (case add_days target_date 1 of
        Inl e \<Rightarrow> True
      | Inr end_day \<Rightarrow>
          (case history X symbol prev_day end_day of
             Inl e \<Rightarrow> True
           | Inr ticker \<Rightarrow>
               (case index_tz ticker of
                  None \<Rightarrow> True
                | Some z \<Rightarrow>
                    filter (\<lambda>b. local_date z (stamp b) = target_date
                                 \<and> strftime_HM (New_York X) (stamp b) = comparison_time)
                      (bars ticker) = []
                    \<or> filter (\<lambda>b. local_date z (stamp b) = prev_day) (bars ticker) = [])))"

text \<open>
  Rows with equal returns stand in the table \<open>after\<close> in the order they have in
  \<open>before\<close>.
\<close>

definition ties_in_input_order :: "'f row list \<Rightarrow> 'f row list \<Rightarrow> bool" where
  "ties_in_input_order before after =
     (\<forall>r \<in> set before.
        filter (\<lambda>x. Return_pct x = Return_pct r) after
          = filter (\<lambda>x. Return_pct x = Return_pct r) before)"

text \<open>
  The rows collected by the loop, in the order of the input list, before the table is
  sorted; and the return of one symbol before it is rounded.
\<close>

definition collected ::
  "'f externals \<Rightarrow> int \<Rightarrow> int \<Rightarrow> string \<Rightarrow> string list \<Rightarrow> 'f row list" where
  "collected X target_date prev_day comparison_time stock_list =
     results (for_loop X target_date prev_day comparison_time stock_list
                \<lparr>results = [], requests = []\<rparr>)"

definition succeeds :: "'f externals \<Rightarrow> int \<Rightarrow> int \<Rightarrow> string \<Rightarrow> string \<Rightarrow> bool" where
  "succeeds X target_date prev_day comparison_time symbol =
     (case snd (try_block X target_date prev_day comparison_time symbol) of
        Inl e \<Rightarrow> False | Inr r \<Rightarrow> True)"


text \<open>
  The partition as the specification words it: both sets chosen by the date of the bar in
  New York time.
\<close>

definition eastern_target_set :: "tz \<Rightarrow> int \<Rightarrow> 'f bar list \<Rightarrow> 'f bar list" where
  "eastern_target_set ny target_date bs = filter (\<lambda>b. local_date ny (stamp b) = target_date) bs"

definition eastern_previous_set :: "tz \<Rightarrow> int \<Rightarrow> 'f bar list \<Rightarrow> 'f bar list" where
  "eastern_previous_set ny prev_day bs = filter (\<lambda>b. local_date ny (stamp b) = prev_day) bs"

section \<open>Example data\<close>

text \<open>
  Exact arithmetic on rationals stands in for the floats in the examples, with rounding
  to two decimals, halves to even. In December New York is five hours behind UTC.
  \<open>at_clock offset day h m\<close> is the instant at which a clock \<open>offset\<close> seconds ahead
  of UTC shows \<open>h:m\<close> on day \<open>day\<close>.
\<close>

definition round_half_even :: "rat \<Rightarrow> int" where
  "round_half_even x =
     (let f = \<lfloor>x\<rfloor>; d = x - of_int f
      in if d < 1 / 2 then f else if d > 1 / 2 then f + 1 else if even f then f else f + 1)"

definition rat_round2 :: "rat \<Rightarrow> rat" where
  "rat_round2 x = of_int (round_half_even (x * 100)) / 100"

definition EST :: tz where
  "EST t = - 18000"

definition UTC :: tz where
  "UTC t = 0"

definition at_clock :: "int \<Rightarrow> int \<Rightarrow> int \<Rightarrow> int \<Rightarrow> int" where
  "at_clock offset day h m = day * 86400 + h * 3600 + m * 60 - offset"

definition friday :: int where "friday = ymd2ord 2024 12 13"
definition saturday :: int where "saturday = ymd2ord 2024 12 14"
definition monday :: int where "monday = ymd2ord 2024 12 16"
definition tuesday :: int where "tuesday = ymd2ord 2024 12 17"

definition ny_bar :: "int \<Rightarrow> int \<Rightarrow> int \<Rightarrow> rat \<Rightarrow> rat bar" where
  "ny_bar day h m c = \<lparr>stamp = at_clock (- 18000) day h m, Close = c\<rparr>"

definition ny_frame :: "rat bar list \<Rightarrow> rat frame" where
  "ny_frame bs = \<lparr>index_tz = Some EST, bars = bs\<rparr>"

text \<open>
  AAPL and TIED both gain 5 per cent on Tuesday; MSFT comes back with no bars; TWICE has
  two bars at 10:30 on Tuesday; FINE1, FINE2 and FINE3 gain 1.001, 1.004 and 1.006 per
  cent; LATE comes back with Monday's 15:30 bar before Monday's 9:30 bar; EARLY has no
  bar at 10:30 on Tuesday and NEWCO no bar on Monday; XBT is indexed in UTC with bars at
  midnight; any other symbol makes the service raise.
\<close>

definition example_history :: "string \<Rightarrow> int \<Rightarrow> int \<Rightarrow> error + rat frame" where
  "example_history symbol start_day end_day =
     (if symbol = ''AAPL'' then
        Inr (ny_frame [ny_bar friday 15 30 98, ny_bar monday 9 30 99, ny_bar monday 10 30 (199 / 2),
                       ny_bar monday 15 30 100, ny_bar tuesday 9 30 104, ny_bar tuesday 10 30 105])
      else if symbol = ''TIED'' then
        Inr (ny_frame [ny_bar monday 15 30 200, ny_bar tuesday 10 30 210])
      else if symbol = ''MSFT'' then
        Inr (ny_frame [])
      else if symbol = ''TWICE'' then
        Inr (ny_frame [ny_bar monday 15 30 50, ny_bar tuesday 10 30 51, ny_bar tuesday 10 30 60])
      else if symbol = ''FINE1'' then
        Inr (ny_frame [ny_bar monday 15 30 1000, ny_bar tuesday 10 30 (101001 / 100)])
      else if symbol = ''FINE2'' then
        Inr (ny_frame [ny_bar monday 15 30 1000, ny_bar tuesday 10 30 (101004 / 100)])
      else if symbol = ''FINE3'' then
        Inr (ny_frame [ny_bar monday 15 30 1000, ny_bar tuesday 10 30 (101006 / 100)])
      else if symbol = ''LATE'' then
        Inr (ny_frame [ny_bar monday 15 30 100, ny_bar monday 9 30 80, ny_bar tuesday 10 30 105])
      else if symbol = ''EARLY'' then
        Inr (ny_frame [ny_bar monday 15 30 40, ny_bar tuesday 9 30 41])
      else if symbol = ''NEWCO'' then
        Inr (ny_frame [ny_bar tuesday 9 30 10, ny_bar tuesday 10 30 11])
      else if symbol = ''XBT'' then
        Inr \<lparr>index_tz = Some UTC,
             bars = [\<lparr>stamp = at_clock 0 monday 0 0, Close = 100\<rparr>,
                     \<lparr>stamp = at_clock 0 tuesday 0 0, Close = 105\<rparr>]\<rparr>
      else Inl ProviderError)"

text \<open>
  A stable descending sort, and \<^verbatim>\<open>sort_values\<close> as pandas runs it over numpy's vector
  routine.
\<close>

definition sort_stable :: "rat row list \<Rightarrow> rat row list" where
  "sort_stable rows = sort_key (\<lambda>r. - Return_pct r) rows"

definition sort_vector :: "rat row list \<Rightarrow> rat row list" where
  "sort_vector rows = pandas_sort_values (\<lambda>x. False) (vector_argsort (\<lambda>a b. a < b)) rows"

definition example_externals :: "(rat row list \<Rightarrow> rat row list) \<Rightarrow> rat externals" where
  "example_externals sv =
     \<lparr>f_sub = (\<lambda>a b. a - b), f_div = (\<lambda>a b. a / b), f_mul = (\<lambda>a b. a * b), hundred = 100,
      round2 = rat_round2, New_York = EST, sort_values = sv, history = example_history\<rparr>"

text \<open>
  A second set of example values with the special values of the floats: exact arithmetic on
  the finite values, plus and minus infinity and NaN, without signed zeros (a zero divisor
  counts as positive). A finite value divided by zero is an infinity, zero divided by zero
  is NaN, and no comparison with NaN holds.
\<close>

datatype xfloat = Fin rat | PInf | NInf | NaN

fun x_sub :: "xfloat \<Rightarrow> xfloat \<Rightarrow> xfloat" where
  "x_sub NaN y = NaN"
| "x_sub x NaN = NaN"
| "x_sub (Fin a) (Fin b) = Fin (a - b)"
| "x_sub PInf PInf = NaN"
| "x_sub NInf NInf = NaN"
| "x_sub PInf y = PInf"
| "x_sub NInf y = NInf"
| "x_sub x PInf = NInf"
| "x_sub x NInf = PInf"

fun x_div :: "xfloat \<Rightarrow> xfloat \<Rightarrow> xfloat" where
  "x_div NaN y = NaN"
| "x_div x NaN = NaN"
| "x_div (Fin a) (Fin b) =
     (if b = 0 then (if a = 0 then NaN else if 0 < a then PInf else NInf) else Fin (a / b))"
| "x_div (Fin a) y = Fin 0"
| "x_div PInf (Fin b) = (if 0 \<le> b then PInf else NInf)"
| "x_div NInf (Fin b) = (if 0 \<le> b then NInf else PInf)"
| "x_div x y = NaN"

fun x_mul :: "xfloat \<Rightarrow> xfloat \<Rightarrow> xfloat" where
  "x_mul NaN y = NaN"
| "x_mul x NaN = NaN"
| "x_mul (Fin a) (Fin b) = Fin (a * b)"
| "x_mul (Fin a) PInf = (if a = 0 then NaN else if 0 < a then PInf else NInf)"
| "x_mul (Fin a) NInf = (if a = 0 then NaN else if 0 < a then NInf else PInf)"
| "x_mul PInf (Fin b) = (if b = 0 then NaN else if 0 < b then PInf else NInf)"
| "x_mul NInf (Fin b) = (if b = 0 then NaN else if 0 < b then NInf else PInf)"
| "x_mul PInf PInf = PInf"
| "x_mul NInf NInf = PInf"
| "x_mul x y = NInf"

fun x_round2 :: "xfloat \<Rightarrow> xfloat" where
  "x_round2 (Fin a) = Fin (rat_round2 a)"
| "x_round2 x = x"

fun x_isnan :: "xfloat \<Rightarrow> bool" where
  "x_isnan NaN = True"
| "x_isnan x = False"

fun x_le :: "xfloat \<Rightarrow> xfloat \<Rightarrow> bool" where
  "x_le NaN y = False"
| "x_le x NaN = False"
| "x_le (Fin a) (Fin b) = (a \<le> b)"
| "x_le NInf y = True"
| "x_le x PInf = True"
| "x_le x y = False"

definition x_lt :: "xfloat \<Rightarrow> xfloat \<Rightarrow> bool" where
  "x_lt a b = (x_le a b \<and> \<not> x_le b a)"

definition x_bar :: "int \<Rightarrow> int \<Rightarrow> int \<Rightarrow> rat \<Rightarrow> xfloat bar" where
  "x_bar day h m c = \<lparr>stamp = at_clock (- 18000) day h m, Close = Fin c\<rparr>"

text \<open>
  GAIN gains 5 per cent and SLOW 2 per cent; ZERO closed at 0 on Monday and at 105 on
  Tuesday; VOID closed at 0 on both days; any other symbol makes the service raise.
\<close>

definition x_history :: "string \<Rightarrow> int \<Rightarrow> int \<Rightarrow> error + xfloat frame" where
  "x_history symbol start_day end_day =
     (if symbol = ''GAIN'' then
        Inr \<lparr>index_tz = Some EST, bars = [x_bar monday 15 30 100, x_bar tuesday 10 30 105]\<rparr>
      else if symbol = ''SLOW'' then
        Inr \<lparr>index_tz = Some EST, bars = [x_bar monday 15 30 50, x_bar tuesday 10 30 51]\<rparr>
      else if symbol = ''ZERO'' then
        Inr \<lparr>index_tz = Some EST, bars = [x_bar monday 15 30 0, x_bar tuesday 10 30 105]\<rparr>
      else if symbol = ''VOID'' then
        Inr \<lparr>index_tz = Some EST, bars = [x_bar monday 15 30 0, x_bar tuesday 10 30 0]\<rparr>
      else Inl ProviderError)"

definition x_externals :: "xfloat externals" where
  "x_externals =
     \<lparr>f_sub = x_sub, f_div = x_div, f_mul = x_mul, hundred = Fin 100, round2 = x_round2,
      New_York = EST,
      sort_values = pandas_sort_values x_isnan (insertion_argsort x_lt),
      history = x_history\<rparr>"

section \<open>The loop\<close>

lemma loop_body_results:
  "results (loop_body X t p c st s) =
     results st @ (case snd (try_block X t p c s) of Inl e \<Rightarrow> [] | Inr r \<Rightarrow> [r])"
  by (simp add: loop_body_def split: prod.splits sum.splits)

lemma loop_body_requests:
  "requests (loop_body X t p c st s) = requests st @ fst (try_block X t p c s)"
  by (simp add: loop_body_def split: prod.splits sum.splits)

lemma for_loop_results:
  "results (for_loop X t p c syms st) =
     results st @ concat (map (\<lambda>s. case snd (try_block X t p c s) of Inl e \<Rightarrow> [] | Inr r \<Rightarrow> [r]) syms)"
  by (induction syms arbitrary: st) (simp_all add: loop_body_results)

lemma for_loop_requests:
  "requests (for_loop X t p c syms st) =
     requests st @ concat (map (\<lambda>s. fst (try_block X t p c s)) syms)"
  by (induction syms arbitrary: st) (simp_all add: loop_body_requests)

lemma try_block_symbol:
  "snd (try_block X t p c s) = Inr r \<Longrightarrow> Symbol r = s"
  by (auto simp: try_block_def process_ticker_def split: sum.splits)

lemma collected_eq:
  "collected X t p c syms =
     concat (map (\<lambda>s. case snd (try_block X t p c s) of Inl e \<Rightarrow> [] | Inr r \<Rightarrow> [r]) syms)"
  by (simp add: collected_def for_loop_results)

lemma collected_symbols:
  "map Symbol (collected X t p c syms) = filter (succeeds X t p c) syms"
  unfolding collected_eq
  by (induction syms) (auto simp: succeeds_def try_block_symbol split: sum.splits)

lemma requests_sent:
  "requests (for_loop X t p c syms \<lparr>results = [], requests = []\<rparr>) =
     (case add_days t 1 of Inl e \<Rightarrow> [] | Inr end_day \<Rightarrow> map (\<lambda>s. (s, p, end_day)) syms)"
  unfolding for_loop_requests
  by (induction syms) (auto simp: try_block_def split: sum.splits)

lemma calculate_weekday:
  "weekday target_date < 5 \<Longrightarrow> prev_day_of target_date = Inr p \<Longrightarrow>
   calculate_stock_returns X syms target_date c =
     Inr \<lparr>results = (if collected X target_date p c syms = [] then []
                      else sort_values X (collected X target_date p c syms)),
          requests = requests (for_loop X target_date p c syms \<lparr>results = [], requests = []\<rparr>)\<rparr>"
  by (simp add: calculate_stock_returns_def collected_def Let_def)

lemma prev_day_of_value:
  "prev_day_of d = Inr p \<Longrightarrow> p = (if weekday d = 0 then d - 3 else d - 1)"
  by (auto simp: prev_day_of_def add_days_def split: if_splits)

section \<open>The table as the function returns it\<close>

lemma sort_stable_rearranges: "rearranges (example_externals sort_stable)"
  by (simp add: rearranges_def example_externals_def sort_stable_def)

lemma calculate_Inr_cases:
  assumes "calculate_stock_returns X syms d c = Inr out"
  shows "(5 \<le> weekday d \<and> out = \<lparr>results = [], requests = []\<rparr>)
       \<or> (weekday d < 5 \<and> (\<exists>p. prev_day_of d = Inr p
            \<and> results out = (if collected X d p c syms = [] then []
                               else sort_values X (collected X d p c syms))
            \<and> requests out = requests (for_loop X d p c syms \<lparr>results = [], requests = []\<rparr>)))"
proof (cases "5 \<le> weekday d")
  case True
  with assms show ?thesis by (simp add: calculate_stock_returns_def)
next
  case False
  then have wd: "weekday d < 5" by simp
  from assms False obtain p where p: "prev_day_of d = Inr p"
    by (cases "prev_day_of d") (simp_all add: calculate_stock_returns_def)
  from assms calculate_weekday [OF wd p, of X syms c] have
    "out = \<lparr>results = (if collected X d p c syms = [] then []
                      else sort_values X (collected X d p c syms)),
          requests = requests (for_loop X d p c syms \<lparr>results = [], requests = []\<rparr>)\<rparr>"
    by simp
  with wd p show ?thesis by auto
qed

section \<open>The comparison day\<close>

text \<open>
  Claim C1. For a target date that is not a weekend day and that the function accepts
  (it returns a table), the comparison day is the target date minus one day, and minus
  three days when the target date is a Monday, which is then the Friday before. Every
  request sent to the price history service starts on that day.
\<close>

theorem comparison_day_rule:
  assumes "weekday target_date < 5"
    and "calculate_stock_returns X stock_list target_date comparison_time = Inr out"
  shows "prev_day_of target_date
           = Inr (if weekday target_date = 0 then target_date - 3 else target_date - 1)
       \<and> (\<forall>q \<in> set (requests out).
            fst (snd q) = (if weekday target_date = 0 then target_date - 3 else target_date - 1))
       \<and> (weekday target_date = 0 \<longrightarrow> weekday (target_date - 3) = 4)"
proof -
  from calculate_Inr_cases [OF assms(2)] assms(1) obtain p where
    p: "prev_day_of target_date = Inr p" and
    rq: "requests out = requests (for_loop X target_date p comparison_time stock_list
                                     \<lparr>results = [], requests = []\<rparr>)"
    by auto
  have pv: "p = (if weekday target_date = 0 then target_date - 3 else target_date - 1)"
    by (rule prev_day_of_value [OF p])
  have "\<forall>q \<in> set (requests out). fst (snd q) = p"
    unfolding rq requests_sent by (auto split: sum.splits)
  moreover have "weekday target_date = 0 \<longrightarrow> weekday (target_date - 3) = 4"
    unfolding weekday_def by presburger
  ultimately show ?thesis using p pv by simp
qed

theorem comparison_day_rule_witness:
  "weekday monday < 5
   \<and> calculate_stock_returns (example_externals sort_stable) [''AAPL'', ''MSFT''] monday ''10:30''
       = Inr \<lparr>results = [\<lparr>Symbol = ''AAPL'', Previous_Close = 98, Target_Price = 199 / 2,
                           Return_pct = 153 / 100\<rparr>],
              requests = [(''AAPL'', friday, monday + 1), (''MSFT'', friday, monday + 1)]\<rparr>
   \<and> prev_day_of monday = Inr (monday - 3)
   \<and> monday - 3 = friday
   \<and> weekday tuesday < 5
   \<and> prev_day_of tuesday = Inr (tuesday - 1)"
proof -
  have h1: "weekday monday < 5" by code_simp
  have h2: "calculate_stock_returns (example_externals sort_stable) [''AAPL'', ''MSFT''] monday ''10:30''
       = Inr \<lparr>results = [\<lparr>Symbol = ''AAPL'', Previous_Close = 98, Target_Price = 199 / 2,
                           Return_pct = 153 / 100\<rparr>],
              requests = [(''AAPL'', friday, monday + 1), (''MSFT'', friday, monday + 1)]\<rparr>"
    by code_simp
  have m: "weekday monday = 0" by code_simp
  have h3: "weekday tuesday < 5" by code_simp
  have h4: "calculate_stock_returns (example_externals sort_stable) [''AAPL'', ''MSFT''] tuesday ''10:30''
   = Inr \<lparr>results = [\<lparr>Symbol = ''AAPL'', Previous_Close = 100, Target_Price = 105, Return_pct = 5\<rparr>],
          requests = [(''AAPL'', monday, tuesday + 1), (''MSFT'', monday, tuesday + 1)]\<rparr>"
    by code_simp
  have t: "weekday tuesday \<noteq> 0" by code_simp
  have f: "monday - 3 = friday" by code_simp
  from comparison_day_rule [OF h1 h2] m have "prev_day_of monday = Inr (monday - 3)" by simp
  moreover from comparison_day_rule [OF h3 h4] t have "prev_day_of tuesday = Inr (tuesday - 1)" by simp
  ultimately show ?thesis using h1 h2 h3 f by blast
qed

section \<open>Weekend dates\<close>

text \<open>
  Claim C2. When the target date is a Saturday or a Sunday, the function returns the empty
  table and sends no request to the price history service, whatever the symbols.
\<close>

theorem weekend_no_fetch:
  "weekday target_date = 5 \<or> weekday target_date = 6 \<Longrightarrow>
   calculate_stock_returns X stock_list target_date comparison_time
     = Inr \<lparr>results = [], requests = []\<rparr>"
  by (auto simp: calculate_stock_returns_def)

theorem weekend_no_fetch_witness:
  "weekday saturday = 5
   \<and> calculate_stock_returns (example_externals sort_stable) [''AAPL''] saturday ''10:30''
       = Inr \<lparr>results = [], requests = []\<rparr>"
proof -
  have h: "weekday saturday = 5" by code_simp
  then have "weekday saturday = 5 \<or> weekday saturday = 6" by simp
  from weekend_no_fetch [OF this] h show ?thesis by simp
qed

section \<open>Symbols that fail\<close>

lemma process_ticker_raises:
  "(\<exists>r. process_ticker X t p c s fetched = Inr r)
     \<longleftrightarrow> (\<exists>ticker z. fetched = Inr ticker \<and> index_tz ticker = Some z
            \<and> filter (\<lambda>b. local_date z (stamp b) = t \<and> strftime_HM (New_York X) (stamp b) = c)
                 (bars ticker) \<noteq> []
            \<and> filter (\<lambda>b. local_date z (stamp b) = p) (bars ticker) \<noteq> [])"
proof -
  have m: "\<And>z ticker. at_comparison_time (New_York X) c (target_date_data z t (bars ticker))
     = filter (\<lambda>b. local_date z (stamp b) = t \<and> strftime_HM (New_York X) (stamp b) = c) (bars ticker)"
    by (simp add: at_comparison_time_def target_date_data_def conj_commute)
  show ?thesis
  proof (cases fetched)
    case (Inl e)
    then show ?thesis by (simp add: process_ticker_def)
  next
    case (Inr ticker)
    show ?thesis
    proof (cases "index_tz ticker")
      case None
      with Inr show ?thesis by (simp add: process_ticker_def target_time_price_def)
    next
      case (Some z)
      with Inr show ?thesis
        by (auto simp: process_ticker_def target_time_price_def prev_day_close_def
              index_zone_def prev_day_data_def m split: list.splits)
    qed
  qed
qed

lemma succeeds_iff: "succeeds X t p c s \<longleftrightarrow> \<not> raises X t p c s"
proof (cases "add_days t 1")
  case (Inl e)
  then show ?thesis by (simp add: succeeds_def raises_def try_block_def)
next
  case (Inr end_day)
  have "succeeds X t p c s \<longleftrightarrow> (\<exists>r. process_ticker X t p c s (history X s p end_day) = Inr r)"
    using Inr by (auto simp: succeeds_def try_block_def split: sum.splits)
  also have "\<dots> \<longleftrightarrow> \<not> raises X t p c s"
    unfolding process_ticker_raises using Inr
    by (auto simp: raises_def split: sum.splits option.splits)
  finally show ?thesis .
qed

text \<open>
  Claim C6 counts an arithmetic error among the failures that make a symbol drop out. The
  floats of the calculation do not raise: with a previous close of zero the division
  yields infinity, the \<^verbatim>\<open>try\<close> block goes through, and the symbol has a row.
\<close>

theorem zero_close_counterexample:
  "history x_externals ''ZERO'' monday (tuesday + 1)
     = Inr \<lparr>index_tz = Some EST, bars = [x_bar monday 15 30 0, x_bar tuesday 10 30 105]\<rparr>
   \<and> prev_day_close monday
        \<lparr>index_tz = Some EST, bars = [x_bar monday 15 30 0, x_bar tuesday 10 30 105]\<rparr> = Inr (Fin 0)
   \<and> f_div x_externals (f_sub x_externals (Fin 105) (Fin 0)) (Fin 0) = PInf
   \<and> calculate_stock_returns x_externals [''ZERO''] tuesday ''10:30''
       = Inr \<lparr>results = [\<lparr>Symbol = ''ZERO'', Previous_Close = Fin 0, Target_Price = Fin 105,
                           Return_pct = PInf\<rparr>],
              requests = [(''ZERO'', monday, tuesday + 1)]\<rparr>"
proof (intro conjI)
  show "history x_externals ''ZERO'' monday (tuesday + 1)
     = Inr \<lparr>index_tz = Some EST, bars = [x_bar monday 15 30 0, x_bar tuesday 10 30 105]\<rparr>"
    by (simp add: x_externals_def x_history_def)
qed code_simp+

text \<open>
  Claim C6, amended. On a weekday the function returns a table whatever happens to the
  single symbols. A symbol has no row exactly when its \<^verbatim>\<open>try\<close> block raises: the service
  raises or returns a frame that cannot be read, no bar of the target date stands at the
  comparison time, or the previous set is empty. Every other symbol of the input list has
  one row for each of its occurrences, whatever the arithmetic yields, and a request is
  sent for every symbol of the list, so a failure does not stop the symbols after it.
\<close>

theorem failed_symbols_skipped:
  assumes "weekday target_date < 5"
    and "prev_day_of target_date = Inr prev_day"
    and "rearranges X"
  shows "\<exists>out. calculate_stock_returns X stock_list target_date comparison_time = Inr out
           \<and> mset (map Symbol (results out))
               = mset (filter (\<lambda>s. \<not> raises X target_date prev_day comparison_time s) stock_list)
           \<and> (\<forall>s. raises X target_date prev_day comparison_time s
                 \<longrightarrow> s \<notin> set (map Symbol (results out)))
           \<and> (\<forall>end_day. add_days target_date 1 = Inr end_day
                 \<longrightarrow> requests out = map (\<lambda>s. (s, prev_day, end_day)) stock_list)"
proof -
  let ?c = "collected X target_date prev_day comparison_time stock_list"
  let ?out = "\<lparr>results = (if ?c = [] then [] else sort_values X ?c),
               requests = requests (for_loop X target_date prev_day comparison_time stock_list
                                      \<lparr>results = [], requests = []\<rparr>)\<rparr>"
  have eq: "calculate_stock_returns X stock_list target_date comparison_time = Inr ?out"
    by (rule calculate_weekday [OF assms(1) assms(2)])
  have "mset (sort_values X ?c) = mset ?c"
    using assms(3) by (simp add: rearranges_def)
  then have "mset (map Symbol (sort_values X ?c)) = mset (map Symbol ?c)"
    by (metis mset_map)
  then have "mset (map Symbol (results ?out)) = mset (map Symbol ?c)"
    by simp
  then have "mset (map Symbol (results ?out))
               = mset (filter (succeeds X target_date prev_day comparison_time) stock_list)"
    by (simp only: collected_symbols)
  moreover have "filter (succeeds X target_date prev_day comparison_time) stock_list
                   = filter (\<lambda>s. \<not> raises X target_date prev_day comparison_time s) stock_list"
    by (rule filter_cong) (simp_all add: succeeds_iff)
  ultimately have rows: "mset (map Symbol (results ?out))
               = mset (filter (\<lambda>s. \<not> raises X target_date prev_day comparison_time s) stock_list)"
    by (simp only:)
  have none: "\<forall>s. raises X target_date prev_day comparison_time s
                 \<longrightarrow> s \<notin> set (map Symbol (results ?out))"
  proof (intro allI impI)
    fix s assume r: "raises X target_date prev_day comparison_time s"
    have "set (map Symbol (results ?out))
            = set (filter (\<lambda>s. \<not> raises X target_date prev_day comparison_time s) stock_list)"
      using rows by (rule mset_eq_setD)
    with r show "s \<notin> set (map Symbol (results ?out))" by simp
  qed
  have "\<forall>end_day. add_days target_date 1 = Inr end_day
          \<longrightarrow> requests ?out = map (\<lambda>s. (s, prev_day, end_day)) stock_list"
    by (simp add: requests_sent)
  with eq rows none show ?thesis by blast
qed

theorem failed_symbols_skipped_witness:
  "weekday tuesday < 5 \<and> prev_day_of tuesday = Inr monday
   \<and> rearranges (example_externals sort_stable)
   \<and> raises (example_externals sort_stable) tuesday monday ''10:30'' ''NONE''
   \<and> raises (example_externals sort_stable) tuesday monday ''10:30'' ''MSFT''
   \<and> raises (example_externals sort_stable) tuesday monday ''10:30'' ''EARLY''
   \<and> raises (example_externals sort_stable) tuesday monday ''10:30'' ''NEWCO''
   \<and> filter (\<lambda>s. \<not> raises (example_externals sort_stable) tuesday monday ''10:30'' s)
        [''AAPL'', ''NONE'', ''MSFT'', ''EARLY'', ''NEWCO'', ''TIED''] = [''AAPL'', ''TIED'']
   \<and> add_days tuesday 1 = Inr (tuesday + 1)
   \<and> (\<exists>out. calculate_stock_returns (example_externals sort_stable)
                [''AAPL'', ''NONE'', ''MSFT'', ''EARLY'', ''NEWCO'', ''TIED''] tuesday ''10:30'' = Inr out
           \<and> mset (map Symbol (results out)) = mset [''AAPL'', ''TIED'']
           \<and> ''EARLY'' \<notin> set (map Symbol (results out))
           \<and> requests out = map (\<lambda>s. (s, monday, tuesday + 1))
                               [''AAPL'', ''NONE'', ''MSFT'', ''EARLY'', ''NEWCO'', ''TIED''])"
proof -
  let ?X = "example_externals sort_stable"
  let ?syms = "[''AAPL'', ''NONE'', ''MSFT'', ''EARLY'', ''NEWCO'', ''TIED'']"
  have h1: "weekday tuesday < 5" by code_simp
  have h2: "prev_day_of tuesday = Inr monday" by code_simp
  have h3: "rearranges ?X" by (rule sort_stable_rearranges)
  have r1: "raises ?X tuesday monday ''10:30'' ''NONE''" by code_simp
  have r2: "raises ?X tuesday monday ''10:30'' ''MSFT''" by code_simp
  have r3: "raises ?X tuesday monday ''10:30'' ''EARLY''" by code_simp
  have r4: "raises ?X tuesday monday ''10:30'' ''NEWCO''" by code_simp
  have f: "filter (\<lambda>s. \<not> raises ?X tuesday monday ''10:30'' s) ?syms = [''AAPL'', ''TIED'']"
    by code_simp
  have e: "add_days tuesday 1 = Inr (tuesday + 1)" by code_simp
  from failed_symbols_skipped [OF h1 h2 h3, of ?syms "''10:30''"] obtain out where
    o1: "calculate_stock_returns ?X ?syms tuesday ''10:30'' = Inr out" and
    o2: "mset (map Symbol (results out))
           = mset (filter (\<lambda>s. \<not> raises ?X tuesday monday ''10:30'' s) ?syms)" and
    o3: "\<forall>s. raises ?X tuesday monday ''10:30'' s \<longrightarrow> s \<notin> set (map Symbol (results out))" and
    o4: "\<forall>end_day. add_days tuesday 1 = Inr end_day
          \<longrightarrow> requests out = map (\<lambda>s. (s, monday, end_day)) ?syms"
    by (elim exE conjE)
  from o2 have p2: "mset (map Symbol (results out)) = mset [''AAPL'', ''TIED'']"
    unfolding f .
  from o3 r3 have p3: "''EARLY'' \<notin> set (map Symbol (results out))" by blast
  from o4 e have p4: "requests out = map (\<lambda>s. (s, monday, tuesday + 1)) ?syms" by blast
  from o1 p2 p3 p4 have
    "\<exists>out. calculate_stock_returns ?X ?syms tuesday ''10:30'' = Inr out
           \<and> mset (map Symbol (results out)) = mset [''AAPL'', ''TIED'']
           \<and> ''EARLY'' \<notin> set (map Symbol (results out))
           \<and> requests out = map (\<lambda>s. (s, monday, tuesday + 1)) ?syms"
    by blast
  with h1 h2 h3 r1 r2 r3 r4 f e show ?thesis by (intro conjI)
qed

section \<open>Size of the table\<close>

text \<open>
  Claim C8. The table has at most as many rows as the input list has symbols, and no
  symbol occurs twice in it unless it occurs twice in the input list.
\<close>

theorem table_bounded_by_input:
  assumes "rearranges X"
    and "calculate_stock_returns X stock_list target_date comparison_time = Inr out"
  shows "length (results out) \<le> length stock_list
       \<and> (distinct stock_list \<longrightarrow> distinct (map Symbol (results out)))"
proof -
  from calculate_Inr_cases [OF assms(2)]
  consider "results out = []"
    | p where "results out = sort_values X (collected X target_date p comparison_time stock_list)"
    by (auto split: if_splits)
  then show ?thesis
  proof cases
    case 1
    then show ?thesis by simp
  next
    case 2
    let ?c = "collected X target_date p comparison_time stock_list"
    have m: "mset (results out) = mset ?c"
      using assms(1) 2 by (simp add: rearranges_def)
    then have ms: "mset (map Symbol (results out)) = mset (map Symbol ?c)"
      by (metis mset_map)
    have "length (results out) = length ?c"
      using m by (rule mset_eq_length)
    also have "\<dots> = length (map Symbol ?c)" by simp
    also have "\<dots> \<le> length stock_list"
      by (simp only: collected_symbols length_filter_le)
    finally have len: "length (results out) \<le> length stock_list" .
    have "distinct stock_list \<longrightarrow> distinct (map Symbol ?c)"
      by (simp only: collected_symbols) simp
    then have "distinct stock_list \<longrightarrow> distinct (map Symbol (results out))"
      using ms by (metis mset_eq_imp_distinct_iff)
    with len show ?thesis by simp
  qed
qed

theorem table_bounded_by_input_witness:
  "rearranges (example_externals sort_stable)
   \<and> calculate_stock_returns (example_externals sort_stable) [''AAPL'', ''MSFT''] tuesday ''10:30''
      = Inr \<lparr>results = [\<lparr>Symbol = ''AAPL'', Previous_Close = 100, Target_Price = 105, Return_pct = 5\<rparr>],
             requests = [(''AAPL'', monday, tuesday + 1), (''MSFT'', monday, tuesday + 1)]\<rparr>
   \<and> distinct [''AAPL'', ''MSFT'']
   \<and> length [\<lparr>Symbol = ''AAPL'', Previous_Close = 100 :: rat, Target_Price = 105, Return_pct = 5\<rparr>]
        \<le> length [''AAPL'', ''MSFT'']
   \<and> distinct (map Symbol [\<lparr>Symbol = ''AAPL'', Previous_Close = 100 :: rat, Target_Price = 105, Return_pct = 5\<rparr>])"
proof -
  have h1: "rearranges (example_externals sort_stable)" by (rule sort_stable_rearranges)
  have h2: "calculate_stock_returns (example_externals sort_stable) [''AAPL'', ''MSFT''] tuesday ''10:30''
      = Inr \<lparr>results = [\<lparr>Symbol = ''AAPL'', Previous_Close = 100, Target_Price = 105, Return_pct = 5\<rparr>],
             requests = [(''AAPL'', monday, tuesday + 1), (''MSFT'', monday, tuesday + 1)]\<rparr>"
    by code_simp
  have d: "distinct [''AAPL'', ''MSFT'']" by simp
  from table_bounded_by_input [OF h1 h2] d h1 h2 show ?thesis by simp
qed

section \<open>The prices of one symbol\<close>

lemma last_is_latest:
  "sorted (map f xs) \<Longrightarrow> x \<in> set xs \<Longrightarrow> f x \<le> f (last xs)"
  by (induction xs) (auto split: if_splits)

lemma latest_of_filtered:
  assumes "sorted (map stamp bs)" and "b \<in> set (filter P bs)"
  shows "stamp b \<le> stamp (last (filter P bs))"
proof -
  have "sorted (map stamp (filter P bs))"
    using assms(1) by (rule sorted_filter)
  then show ?thesis using assms(2) by (rule last_is_latest)
qed

lemma find_first_of_filter:
  "find P xs = (case filter P xs of [] \<Rightarrow> None | x # _ \<Rightarrow> Some x)"
  by (induction xs) simp_all

lemma matching_bars:
  "at_comparison_time ny c (target_date_data z t bs)
     = filter (\<lambda>b. local_date z (stamp b) = t \<and> strftime_HM ny (stamp b) = c) bs"
  by (simp add: at_comparison_time_def target_date_data_def conj_commute)

lemma process_ticker_Inr:
  assumes "process_ticker X t p c s fetched = Inr r"
  shows "\<exists>ticker z tb more.
           fetched = Inr ticker \<and> index_tz ticker = Some z
         \<and> at_comparison_time (New_York X) c (target_date_data z t (bars ticker)) = tb # more
         \<and> prev_day_data z p (bars ticker) \<noteq> []
         \<and> r = \<lparr>Symbol = s,
                 Previous_Close = round2 X (Close (last (prev_day_data z p (bars ticker)))),
                 Target_Price = round2 X (Close tb),
                 Return_pct = round2 X (returns_pct X (Close tb)
                                (Close (last (prev_day_data z p (bars ticker)))))\<rparr>"
  using assms
  by (auto simp: process_ticker_def target_time_price_def prev_day_close_def index_zone_def
           split: sum.splits option.splits list.splits if_splits)

text \<open>
  Claim C5 takes the previous close from the chronologically last bar of the previous set.
  \<^verbatim>\<open>iloc[-1]\<close> reads the last row of the frame: when the service returns Monday's 15:30
  bar (close 100) before Monday's 9:30 bar (close 80), the previous close is 80.
\<close>

theorem last_row_counterexample:
  "history (example_externals sort_stable) ''LATE'' monday (tuesday + 1)
     = Inr (ny_frame [ny_bar monday 15 30 100, ny_bar monday 9 30 80, ny_bar tuesday 10 30 105])
   \<and> prev_day_data EST monday
        [ny_bar monday 15 30 100, ny_bar monday 9 30 80, ny_bar tuesday 10 30 105]
       = [ny_bar monday 15 30 100, ny_bar monday 9 30 80]
   \<and> stamp (ny_bar monday 9 30 80) < stamp (ny_bar monday 15 30 100)
   \<and> Close (ny_bar monday 15 30 100) = 100
   \<and> snd (try_block (example_externals sort_stable) tuesday monday ''10:30'' ''LATE'')
       = Inr \<lparr>Symbol = ''LATE'', Previous_Close = 80, Target_Price = 105, Return_pct = 125 / 4\<rparr>"
proof (intro conjI)
  show "history (example_externals sort_stable) ''LATE'' monday (tuesday + 1)
     = Inr (ny_frame [ny_bar monday 15 30 100, ny_bar monday 9 30 80, ny_bar tuesday 10 30 105])"
    by (simp add: example_externals_def example_history_def)
qed code_simp+

text \<open>
  Claim C5, amended. For a symbol whose \<^verbatim>\<open>try\<close> block goes through, the row holds
  \<^verbatim>\<open>round(x, 2)\<close> of the previous close, of the target price and of
  \<^verbatim>\<open>((target_price - prev_close) / prev_close) * 100\<close>; the target price is the close
  of a bar of the target set whose time of day is the comparison time, and the previous
  close is the close of the last bar of the previous set in the order of the frame, which
  is the latest one when the service returns its bars in time order.
\<close>

theorem return_record_formula:
  assumes "snd (try_block X target_date prev_day comparison_time symbol) = Inr r"
  shows "\<exists>ticker z tb pb.
           history X symbol prev_day (target_date + 1) = Inr ticker
         \<and> index_tz ticker = Some z
         \<and> tb \<in> set (target_date_data z target_date (bars ticker))
         \<and> strftime_HM (New_York X) (stamp tb) = comparison_time
         \<and> pb \<in> set (prev_day_data z prev_day (bars ticker))
         \<and> pb = last (prev_day_data z prev_day (bars ticker))
         \<and> (sorted (map stamp (bars ticker))
              \<longrightarrow> (\<forall>b \<in> set (prev_day_data z prev_day (bars ticker)). stamp b \<le> stamp pb))
         \<and> Previous_Close r = round2 X (Close pb)
         \<and> Target_Price r = round2 X (Close tb)
         \<and> Return_pct r
             = round2 X (f_mul X (f_div X (f_sub X (Close tb) (Close pb)) (Close pb)) (hundred X))"
proof -
  from assms have pt: "process_ticker X target_date prev_day comparison_time symbol
                         (history X symbol prev_day (target_date + 1)) = Inr r"
    by (auto simp: try_block_def add_days_def split: if_splits)
  from process_ticker_Inr [OF pt] obtain ticker z tb more where
    h: "history X symbol prev_day (target_date + 1) = Inr ticker" and
    z: "index_tz ticker = Some z" and
    m: "at_comparison_time (New_York X) comparison_time
          (target_date_data z target_date (bars ticker)) = tb # more" and
    ne: "prev_day_data z prev_day (bars ticker) \<noteq> []" and
    r: "r = \<lparr>Symbol = symbol,
             Previous_Close = round2 X (Close (last (prev_day_data z prev_day (bars ticker)))),
             Target_Price = round2 X (Close tb),
             Return_pct = round2 X (returns_pct X (Close tb)
                            (Close (last (prev_day_data z prev_day (bars ticker)))))\<rparr>"
    by blast
  let ?pb = "last (prev_day_data z prev_day (bars ticker))"
  have "tb \<in> set (at_comparison_time (New_York X) comparison_time
                    (target_date_data z target_date (bars ticker)))"
    using m by simp
  then have tb: "tb \<in> set (target_date_data z target_date (bars ticker))
               \<and> strftime_HM (New_York X) (stamp tb) = comparison_time"
    by (simp add: at_comparison_time_def)
  have pb: "?pb \<in> set (prev_day_data z prev_day (bars ticker))"
    using ne by (rule last_in_set)
  have chron: "sorted (map stamp (bars ticker))
     \<longrightarrow> (\<forall>b \<in> set (prev_day_data z prev_day (bars ticker)). stamp b \<le> stamp ?pb)"
    unfolding prev_day_data_def by (auto intro: latest_of_filtered)
  have f: "Previous_Close r = round2 X (Close ?pb) \<and> Target_Price r = round2 X (Close tb)
     \<and> Return_pct r
         = round2 X (f_mul X (f_div X (f_sub X (Close tb) (Close ?pb)) (Close ?pb)) (hundred X))"
    by (simp add: r returns_pct_def)
  from h z tb pb chron f show ?thesis by blast
qed

theorem return_record_formula_witness:
  "snd (try_block (example_externals sort_stable) tuesday monday ''10:30'' ''AAPL'')
     = Inr \<lparr>Symbol = ''AAPL'', Previous_Close = 100, Target_Price = 105, Return_pct = 5\<rparr>
   \<and> sorted (map stamp (bars (ny_frame [ny_bar friday 15 30 98, ny_bar monday 9 30 99,
                   ny_bar monday 10 30 (199 / 2), ny_bar monday 15 30 100,
                   ny_bar tuesday 9 30 104, ny_bar tuesday 10 30 105])))
   \<and> (\<exists>tb pb.
         tb \<in> set (target_date_data EST tuesday [ny_bar friday 15 30 98, ny_bar monday 9 30 99,
                   ny_bar monday 10 30 (199 / 2), ny_bar monday 15 30 100,
                   ny_bar tuesday 9 30 104, ny_bar tuesday 10 30 105])
       \<and> strftime_HM EST (stamp tb) = ''10:30''
       \<and> pb = last (prev_day_data EST monday [ny_bar friday 15 30 98, ny_bar monday 9 30 99,
                   ny_bar monday 10 30 (199 / 2), ny_bar monday 15 30 100,
                   ny_bar tuesday 9 30 104, ny_bar tuesday 10 30 105])
       \<and> (\<forall>b \<in> set (prev_day_data EST monday [ny_bar friday 15 30 98, ny_bar monday 9 30 99,
                   ny_bar monday 10 30 (199 / 2), ny_bar monday 15 30 100,
                   ny_bar tuesday 9 30 104, ny_bar tuesday 10 30 105]). stamp b \<le> stamp pb)
       \<and> rat_round2 (Close pb) = 100 \<and> rat_round2 (Close tb) = 105
       \<and> rat_round2 ((Close tb - Close pb) / Close pb * 100) = 5)"
proof -
  let ?X = "example_externals sort_stable"
  let ?bs = "[ny_bar friday 15 30 98, ny_bar monday 9 30 99,
                   ny_bar monday 10 30 (199 / 2), ny_bar monday 15 30 100,
                   ny_bar tuesday 9 30 104, ny_bar tuesday 10 30 105]"
  let ?r = "\<lparr>Symbol = ''AAPL'', Previous_Close = 100 :: rat, Target_Price = 105, Return_pct = 5\<rparr>"
  have h: "snd (try_block ?X tuesday monday ''10:30'' ''AAPL'') = Inr ?r"
    by code_simp
  have e: "history ?X ''AAPL'' monday (tuesday + 1) = Inr (ny_frame ?bs)"
    by (simp add: example_externals_def example_history_def)
  have s: "sorted (map stamp (bars (ny_frame ?bs)))"
    by code_simp
  from return_record_formula [OF h] obtain ticker z tb pb where
    a1: "history ?X ''AAPL'' monday (tuesday + 1) = Inr ticker" and
    a2: "index_tz ticker = Some z" and
    a3: "tb \<in> set (target_date_data z tuesday (bars ticker))" and
    a4: "strftime_HM (New_York ?X) (stamp tb) = ''10:30''" and
    a5: "pb = last (prev_day_data z monday (bars ticker))" and
    a6: "sorted (map stamp (bars ticker))
              \<longrightarrow> (\<forall>b \<in> set (prev_day_data z monday (bars ticker)). stamp b \<le> stamp pb)" and
    a7: "Previous_Close ?r = round2 ?X (Close pb)" and
    a8: "Target_Price ?r = round2 ?X (Close tb)" and
    a9: "Return_pct ?r
             = round2 ?X (f_mul ?X (f_div ?X (f_sub ?X (Close tb) (Close pb)) (Close pb)) (hundred ?X))"
    by (elim exE conjE)
  from a1 e have t: "ticker = ny_frame ?bs" by simp
  from a2 have zz: "z = EST" unfolding t by (simp add: ny_frame_def)
  have b: "bars (ny_frame ?bs) = ?bs" by (simp add: ny_frame_def)
  have ny: "New_York ?X = EST" by (simp add: example_externals_def)
  have rd: "round2 ?X = rat_round2" by (simp add: example_externals_def)
  have ar: "f_mul ?X (f_div ?X (f_sub ?X (Close tb) (Close pb)) (Close pb)) (hundred ?X)
              = (Close tb - Close pb) / Close pb * 100"
    by (simp add: example_externals_def)
  from a3 have c3: "tb \<in> set (target_date_data EST tuesday ?bs)" unfolding t zz b .
  from a4 have c4: "strftime_HM EST (stamp tb) = ''10:30''" unfolding ny .
  from a5 have c5: "pb = last (prev_day_data EST monday ?bs)" unfolding t zz b .
  from a6 s have c6: "\<forall>b \<in> set (prev_day_data EST monday ?bs). stamp b \<le> stamp pb"
    unfolding t zz b by simp
  from a7 have c7: "rat_round2 (Close pb) = 100" unfolding rd by simp
  from a8 have c8: "rat_round2 (Close tb) = 105" unfolding rd by simp
  from a9 have c9: "rat_round2 ((Close tb - Close pb) / Close pb * 100) = 5"
    unfolding rd ar by simp
  from c3 c4 c5 c6 c7 c8 c9 have
    "\<exists>tb pb. tb \<in> set (target_date_data EST tuesday ?bs)
       \<and> strftime_HM EST (stamp tb) = ''10:30''
       \<and> pb = last (prev_day_data EST monday ?bs)
       \<and> (\<forall>b \<in> set (prev_day_data EST monday ?bs). stamp b \<le> stamp pb)
       \<and> rat_round2 (Close pb) = 100 \<and> rat_round2 (Close tb) = 105
       \<and> rat_round2 ((Close tb - Close pb) / Close pb * 100) = 5"
    by (intro exI conjI)
  with h s show ?thesis by (intro conjI)
qed

text \<open>
  Claim C9. When more than one bar of the target date stands at the comparison time, the
  target price is the close of the first of them in the order of the frame; the others
  are ignored and do not make the symbol fail.
\<close>

theorem first_matching_bar_used:
  assumes "index_tz ticker = Some z"
    and "length (filter (\<lambda>b. local_date z (stamp b) = target_date
                           \<and> strftime_HM (New_York X) (stamp b) = comparison_time)
                   (bars ticker)) > 1"
  shows "\<exists>b. find (\<lambda>b. local_date z (stamp b) = target_date
                        \<and> strftime_HM (New_York X) (stamp b) = comparison_time)
                (bars ticker) = Some b
           \<and> target_time_price X target_date comparison_time ticker = Inr (Close b)
           \<and> (\<forall>p. prev_day_close prev_day ticker = Inr p
                 \<longrightarrow> (\<exists>r. process_ticker X target_date prev_day comparison_time symbol (Inr ticker)
                            = Inr r
                        \<and> Target_Price r = round2 X (Close b)))"
proof -
  let ?P = "\<lambda>b. local_date z (stamp b) = target_date
                \<and> strftime_HM (New_York X) (stamp b) = comparison_time"
  from assms(2) obtain b more where f: "filter ?P (bars ticker) = b # more"
    by (cases "filter ?P (bars ticker)") simp_all
  have fnd: "find ?P (bars ticker) = Some b"
    by (simp add: find_first_of_filter f)
  have tp: "target_time_price X target_date comparison_time ticker = Inr (Close b)"
    by (simp add: target_time_price_def assms(1) matching_bars f)
  have "\<forall>p. prev_day_close prev_day ticker = Inr p
          \<longrightarrow> (\<exists>r. process_ticker X target_date prev_day comparison_time symbol (Inr ticker) = Inr r
                 \<and> Target_Price r = round2 X (Close b))"
    by (simp add: process_ticker_def tp)
  with fnd tp show ?thesis by blast
qed

theorem first_matching_bar_used_witness:
  "index_tz (ny_frame [ny_bar monday 15 30 50, ny_bar tuesday 10 30 51, ny_bar tuesday 10 30 60])
     = Some EST
   \<and> length (filter (\<lambda>b. local_date EST (stamp b) = tuesday
                         \<and> strftime_HM EST (stamp b) = ''10:30'')
        (bars (ny_frame [ny_bar monday 15 30 50, ny_bar tuesday 10 30 51, ny_bar tuesday 10 30 60]))) = 2
   \<and> target_time_price (example_externals sort_stable) tuesday ''10:30''
        (ny_frame [ny_bar monday 15 30 50, ny_bar tuesday 10 30 51, ny_bar tuesday 10 30 60]) = Inr 51
   \<and> calculate_stock_returns (example_externals sort_stable) [''TWICE''] tuesday ''10:30''
       = Inr \<lparr>results = [\<lparr>Symbol = ''TWICE'', Previous_Close = 50, Target_Price = 51, Return_pct = 2\<rparr>],
              requests = [(''TWICE'', monday, tuesday + 1)]\<rparr>"
proof -
  let ?X = "example_externals sort_stable"
  let ?t = "ny_frame [ny_bar monday 15 30 50, ny_bar tuesday 10 30 51, ny_bar tuesday 10 30 60]"
  have ny: "New_York ?X = EST" by (simp add: example_externals_def)
  have h1: "index_tz ?t = Some EST" by (simp add: ny_frame_def)
  have n: "length (filter (\<lambda>b. local_date EST (stamp b) = tuesday
                         \<and> strftime_HM EST (stamp b) = ''10:30'') (bars ?t)) = 2"
    by code_simp
  have h2: "length (filter (\<lambda>b. local_date EST (stamp b) = tuesday
                         \<and> strftime_HM (New_York ?X) (stamp b) = ''10:30'') (bars ?t)) > 1"
    unfolding ny n by simp
  have fnd: "find (\<lambda>b. local_date EST (stamp b) = tuesday
                         \<and> strftime_HM EST (stamp b) = ''10:30'') (bars ?t)
              = Some (ny_bar tuesday 10 30 51)"
    by code_simp
  have c: "Close (ny_bar tuesday 10 30 51) = 51" by (simp add: ny_bar_def)
  from first_matching_bar_used [OF h1 h2, of monday "''TWICE''"] obtain b where
    b1: "find (\<lambda>b. local_date EST (stamp b) = tuesday
                         \<and> strftime_HM (New_York ?X) (stamp b) = ''10:30'') (bars ?t) = Some b" and
    b2: "target_time_price ?X tuesday ''10:30'' ?t = Inr (Close b)"
    by (elim exE conjE)
  from b1 have "b = ny_bar tuesday 10 30 51" unfolding ny fnd by simp
  with b2 c have tp: "target_time_price ?X tuesday ''10:30'' ?t = Inr 51"
    by simp
  have calc: "calculate_stock_returns ?X [''TWICE''] tuesday ''10:30''
       = Inr \<lparr>results = [\<lparr>Symbol = ''TWICE'', Previous_Close = 50, Target_Price = 51, Return_pct = 2\<rparr>],
              requests = [(''TWICE'', monday, tuesday + 1)]\<rparr>"
    by code_simp
  from h1 n tp calc show ?thesis by (intro conjI)
qed

section \<open>Which dates split the bars\<close>

lemma same_zone_same_dates:
  assumes "\<forall>b \<in> set bs. z (stamp b) = ny (stamp b)"
  shows "filter (\<lambda>b. local_date z (stamp b) = d) bs = filter (\<lambda>b. local_date ny (stamp b) = d) bs"
  using assms by (intro filter_cong) (simp_all add: local_date_def)

text \<open>
  Claim C4 says that both sets are chosen by the date of each bar in US Eastern time. The
  code compares the dates of the index as the service returned it and converts only the
  rows of the target date afterwards. For a frame indexed in UTC with bars at midnight, and
  the comparison time 19:00, the bar of Tuesday 00:00 UTC (Monday 19:00 in New York) is
  taken as the target bar, although no bar has the Eastern date Tuesday, and a row comes
  out.
\<close>

theorem eastern_partition_counterexample:
  "history (example_externals sort_stable) ''XBT'' monday (tuesday + 1)
     = Inr \<lparr>index_tz = Some UTC,
            bars = [\<lparr>stamp = at_clock 0 monday 0 0, Close = 100\<rparr>,
                    \<lparr>stamp = at_clock 0 tuesday 0 0, Close = 105\<rparr>]\<rparr>
   \<and> target_date_data UTC tuesday [\<lparr>stamp = at_clock 0 monday 0 0, Close = 100 :: rat\<rparr>,
                                   \<lparr>stamp = at_clock 0 tuesday 0 0, Close = 105\<rparr>]
       = [\<lparr>stamp = at_clock 0 tuesday 0 0, Close = 105\<rparr>]
   \<and> local_date EST (at_clock 0 tuesday 0 0) = monday
   \<and> eastern_target_set EST tuesday [\<lparr>stamp = at_clock 0 monday 0 0, Close = 100 :: rat\<rparr>,
                                     \<lparr>stamp = at_clock 0 tuesday 0 0, Close = 105\<rparr>] = []
   \<and> prev_day_data UTC monday [\<lparr>stamp = at_clock 0 monday 0 0, Close = 100 :: rat\<rparr>,
                                \<lparr>stamp = at_clock 0 tuesday 0 0, Close = 105\<rparr>]
       = [\<lparr>stamp = at_clock 0 monday 0 0, Close = 100\<rparr>]
   \<and> eastern_previous_set EST monday [\<lparr>stamp = at_clock 0 monday 0 0, Close = 100 :: rat\<rparr>,
                                       \<lparr>stamp = at_clock 0 tuesday 0 0, Close = 105\<rparr>]
       = [\<lparr>stamp = at_clock 0 tuesday 0 0, Close = 105\<rparr>]
   \<and> calculate_stock_returns (example_externals sort_stable) [''XBT''] tuesday ''19:00''
       = Inr \<lparr>results = [\<lparr>Symbol = ''XBT'', Previous_Close = 100, Target_Price = 105, Return_pct = 5\<rparr>],
              requests = [(''XBT'', monday, tuesday + 1)]\<rparr>"
proof (intro conjI)
  show "history (example_externals sort_stable) ''XBT'' monday (tuesday + 1)
     = Inr \<lparr>index_tz = Some UTC,
            bars = [\<lparr>stamp = at_clock 0 monday 0 0, Close = 100\<rparr>,
                    \<lparr>stamp = at_clock 0 tuesday 0 0, Close = 105\<rparr>]\<rparr>"
    by (simp add: example_externals_def example_history_def)
qed code_simp+

text \<open>
  Claim C4, amended. For every symbol processed, the target bar has the target date and
  the previous bar has the comparison day as their dates in the zone of the index the
  service returned; Eastern time is used for the time of day of the target bar only. When
  the zone of the index agrees with Eastern time on the bars, the two sets are the ones
  chosen by Eastern dates.
\<close>

theorem partition_by_index_dates:
  assumes "snd (try_block X target_date prev_day comparison_time symbol) = Inr r"
  shows "\<exists>ticker z tb pb.
           history X symbol prev_day (target_date + 1) = Inr ticker
         \<and> index_tz ticker = Some z
         \<and> tb \<in> set (bars ticker) \<and> local_date z (stamp tb) = target_date
         \<and> strftime_HM (New_York X) (stamp tb) = comparison_time
         \<and> pb \<in> set (bars ticker) \<and> local_date z (stamp pb) = prev_day
         \<and> Target_Price r = round2 X (Close tb)
         \<and> Previous_Close r = round2 X (Close pb)
         \<and> ((\<forall>b \<in> set (bars ticker). z (stamp b) = New_York X (stamp b))
              \<longrightarrow> target_date_data z target_date (bars ticker)
                    = eastern_target_set (New_York X) target_date (bars ticker)
                \<and> prev_day_data z prev_day (bars ticker)
                    = eastern_previous_set (New_York X) prev_day (bars ticker))"
proof -
  from assms have pt: "process_ticker X target_date prev_day comparison_time symbol
                         (history X symbol prev_day (target_date + 1)) = Inr r"
    by (auto simp: try_block_def add_days_def split: if_splits)
  from process_ticker_Inr [OF pt] obtain ticker z tb more where
    h: "history X symbol prev_day (target_date + 1) = Inr ticker" and
    z: "index_tz ticker = Some z" and
    m: "at_comparison_time (New_York X) comparison_time
          (target_date_data z target_date (bars ticker)) = tb # more" and
    ne: "prev_day_data z prev_day (bars ticker) \<noteq> []" and
    r: "r = \<lparr>Symbol = symbol,
             Previous_Close = round2 X (Close (last (prev_day_data z prev_day (bars ticker)))),
             Target_Price = round2 X (Close tb),
             Return_pct = round2 X (returns_pct X (Close tb)
                            (Close (last (prev_day_data z prev_day (bars ticker)))))\<rparr>"
    by blast
  let ?pb = "last (prev_day_data z prev_day (bars ticker))"
  have "tb \<in> set (at_comparison_time (New_York X) comparison_time
                    (target_date_data z target_date (bars ticker)))"
    using m by simp
  then have tb: "tb \<in> set (bars ticker) \<and> local_date z (stamp tb) = target_date
               \<and> strftime_HM (New_York X) (stamp tb) = comparison_time"
    by (simp add: at_comparison_time_def target_date_data_def)
  have "?pb \<in> set (prev_day_data z prev_day (bars ticker))"
    using ne by (rule last_in_set)
  then have pb: "?pb \<in> set (bars ticker) \<and> local_date z (stamp ?pb) = prev_day"
    by (simp add: prev_day_data_def)
  have f: "Target_Price r = round2 X (Close tb) \<and> Previous_Close r = round2 X (Close ?pb)"
    by (simp add: r)
  have same: "(\<forall>b \<in> set (bars ticker). z (stamp b) = New_York X (stamp b))
              \<longrightarrow> target_date_data z target_date (bars ticker)
                    = eastern_target_set (New_York X) target_date (bars ticker)
                \<and> prev_day_data z prev_day (bars ticker)
                    = eastern_previous_set (New_York X) prev_day (bars ticker)"
    unfolding target_date_data_def prev_day_data_def eastern_target_set_def
      eastern_previous_set_def
    by (auto intro: same_zone_same_dates)
  from h z tb pb f same show ?thesis by blast
qed

theorem partition_by_index_dates_witness:
  "snd (try_block (example_externals sort_stable) tuesday monday ''10:30'' ''TIED'')
     = Inr \<lparr>Symbol = ''TIED'', Previous_Close = 200, Target_Price = 210, Return_pct = 5\<rparr>
   \<and> history (example_externals sort_stable) ''TIED'' monday (tuesday + 1)
       = Inr (ny_frame [ny_bar monday 15 30 200, ny_bar tuesday 10 30 210])
   \<and> EST (stamp (ny_bar monday 15 30 200))
       = New_York (example_externals sort_stable) (stamp (ny_bar monday 15 30 200))
   \<and> EST (stamp (ny_bar tuesday 10 30 210))
       = New_York (example_externals sort_stable) (stamp (ny_bar tuesday 10 30 210))
   \<and> target_date_data EST tuesday [ny_bar monday 15 30 200, ny_bar tuesday 10 30 210]
       = eastern_target_set EST tuesday [ny_bar monday 15 30 200, ny_bar tuesday 10 30 210]
   \<and> prev_day_data EST monday [ny_bar monday 15 30 200, ny_bar tuesday 10 30 210]
       = eastern_previous_set EST monday [ny_bar monday 15 30 200, ny_bar tuesday 10 30 210]"
proof -
  let ?X = "example_externals sort_stable"
  let ?bs = "[ny_bar monday 15 30 200, ny_bar tuesday 10 30 210]"
  have h: "snd (try_block ?X tuesday monday ''10:30'' ''TIED'')
     = Inr \<lparr>Symbol = ''TIED'', Previous_Close = 200, Target_Price = 210, Return_pct = 5\<rparr>"
    by code_simp
  have e: "history ?X ''TIED'' monday (tuesday + 1) = Inr (ny_frame ?bs)"
    by (simp add: example_externals_def example_history_def)
  have ny: "New_York ?X = EST" by (simp add: example_externals_def)
  have b: "bars (ny_frame ?bs) = ?bs" by (simp add: ny_frame_def)
  have zs: "\<forall>b \<in> set ?bs. EST (stamp b) = New_York ?X (stamp b)"
    unfolding ny by simp
  from partition_by_index_dates [OF h] obtain ticker z where
    a1: "history ?X ''TIED'' monday (tuesday + 1) = Inr ticker" and
    a2: "index_tz ticker = Some z" and
    a3: "(\<forall>b \<in> set (bars ticker). z (stamp b) = New_York ?X (stamp b))
              \<longrightarrow> target_date_data z tuesday (bars ticker)
                    = eastern_target_set (New_York ?X) tuesday (bars ticker)
                \<and> prev_day_data z monday (bars ticker)
                    = eastern_previous_set (New_York ?X) monday (bars ticker)"
    by (elim exE conjE)
  from a1 e have t: "ticker = ny_frame ?bs" by simp
  from a2 have zz: "z = EST" unfolding t by (simp add: ny_frame_def)
  from a3 zs have "target_date_data EST tuesday ?bs = eastern_target_set EST tuesday ?bs
                 \<and> prev_day_data EST monday ?bs = eastern_previous_set EST monday ?bs"
    unfolding t zz b ny by simp
  moreover have "EST (stamp (ny_bar monday 15 30 200))
       = New_York ?X (stamp (ny_bar monday 15 30 200))"
    unfolding ny ..
  moreover have "EST (stamp (ny_bar tuesday 10 30 210))
       = New_York ?X (stamp (ny_bar tuesday 10 30 210))"
    unfolding ny ..
  ultimately show ?thesis using h e by (intro conjI) simp_all
qed

section \<open>numpy's argsort on short arrays\<close>

lemma insert_arg_mset: "mset (insert_arg lt ks i js) = add_mset i (mset js)"
  by (induction js) simp_all

lemma insert_arg_set: "set (insert_arg lt ks i js) = insert i (set js)"
  by (induction js) auto

lemma insert_arg_sorted:
  assumes "float_order le lt isnan"
    and "\<forall>k \<in> set ks. \<not> isnan k"
    and "i < length ks"
    and "\<forall>j \<in> set js. j < length ks"
    and "sorted_wrt (\<lambda>i j. le (ks ! i) (ks ! j)) js"
  shows "sorted_wrt (\<lambda>i j. le (ks ! i) (ks ! j)) (insert_arg lt ks i js)"
  using assms(4,5)
proof (induction js)
  case Nil
  then show ?case by simp
next
  case (Cons j js)
  have ni: "\<not> isnan (ks ! i)" using assms(2,3) by simp
  have nj: "\<not> isnan (ks ! j)" using assms(2) Cons.prems(1) by simp
  have nx: "\<And>x. x \<in> set js \<Longrightarrow> \<not> isnan (ks ! x)" using assms(2) Cons.prems(1) by simp
  have tot: "le (ks ! i) (ks ! j) \<or> le (ks ! j) (ks ! i)"
    using assms(1) ni nj unfolding float_order_def by blast
  have ltd: "lt (ks ! i) (ks ! j) \<longleftrightarrow> \<not> le (ks ! j) (ks ! i)"
    using assms(1) ni nj unfolding float_order_def by blast
  have trans: "\<And>a b c. \<not> isnan a \<Longrightarrow> \<not> isnan b \<Longrightarrow> \<not> isnan c \<Longrightarrow> le a b \<Longrightarrow> le b c \<Longrightarrow> le a c"
    using assms(1) unfolding float_order_def by blast
  show ?case
  proof (cases "lt (ks ! i) (ks ! j)")
    case True
    then have ij: "le (ks ! i) (ks ! j)" using tot ltd by blast
    have "\<forall>x \<in> set js. le (ks ! i) (ks ! x)"
    proof
      fix x assume x: "x \<in> set js"
      then have "le (ks ! j) (ks ! x)" using Cons.prems(2) by simp
      with ij show "le (ks ! i) (ks ! x)" using trans [OF ni nj nx [OF x]] by blast
    qed
    with True ij Cons.prems(2) show ?thesis by simp
  next
    case False
    then have ji: "le (ks ! j) (ks ! i)" using ltd by blast
    have ih: "sorted_wrt (\<lambda>i j. le (ks ! i) (ks ! j)) (insert_arg lt ks i js)"
      using Cons.IH Cons.prems by simp
    have "\<forall>x \<in> set (insert_arg lt ks i js). le (ks ! j) (ks ! x)"
      using ji Cons.prems(2) by (simp add: insert_arg_set)
    with False ih show ?thesis by simp
  qed
qed

lemma foldl_insert_arg:
  assumes "float_order le lt isnan"
    and "\<forall>k \<in> set ks. \<not> isnan k"
  shows "\<forall>i \<in> set xs. i < length ks \<Longrightarrow> \<forall>j \<in> set acc. j < length ks
     \<Longrightarrow> sorted_wrt (\<lambda>i j. le (ks ! i) (ks ! j)) acc
     \<Longrightarrow> mset (foldl (\<lambda>acc i. insert_arg lt ks i acc) acc xs) = mset acc + mset xs
       \<and> sorted_wrt (\<lambda>i j. le (ks ! i) (ks ! j)) (foldl (\<lambda>acc i. insert_arg lt ks i acc) acc xs)"
proof (induction xs arbitrary: acc)
  case Nil
  then show ?case by simp
next
  case (Cons x xs)
  have s: "sorted_wrt (\<lambda>i j. le (ks ! i) (ks ! j)) (insert_arg lt ks x acc)"
    using insert_arg_sorted [OF assms, of x acc] Cons.prems by simp
  have b: "\<forall>j \<in> set (insert_arg lt ks x acc). j < length ks"
    using Cons.prems by (simp add: insert_arg_set)
  from Cons.IH [OF _ b s] Cons.prems(1)
  show ?case by (simp add: insert_arg_mset)
qed

lemma insertion_argsort_ascending:
  assumes "float_order le lt isnan"
  shows "argsort_ascending le isnan (insertion_argsort lt)"
  unfolding argsort_ascending_def insertion_argsort_def
proof (intro allI impI)
  fix ks :: "'a list"
  assume n: "\<forall>k \<in> set ks. \<not> isnan k"
  from foldl_insert_arg [OF assms n, of "[0..<length ks]" "[]"]
  show "mset (foldl (\<lambda>acc i. insert_arg lt ks i acc) [] [0..<length ks]) = mset [0..<length ks]
      \<and> sorted_wrt (\<lambda>i j. le (ks ! i) (ks ! j))
           (foldl (\<lambda>acc i. insert_arg lt ks i acc) [] [0..<length ks])"
    by simp
qed

lemma rat_float_order: "float_order (\<lambda>a b :: rat. a \<le> b) (\<lambda>a b. a < b) (\<lambda>x. False)"
  by (auto simp: float_order_def)

lemma x_float_order: "float_order x_le x_lt x_isnan"
  unfolding float_order_def x_lt_def
proof (intro conjI allI impI)
  fix a b
  assume "\<not> x_isnan a \<and> \<not> x_isnan b"
  then show "x_le a b \<or> x_le b a"
    by (cases a; cases b) auto
next
  fix a b
  assume h: "\<not> x_isnan a \<and> \<not> x_isnan b"
  then have "x_le a b \<or> x_le b a"
    by (cases a; cases b) auto
  then show "(x_le a b \<and> \<not> x_le b a) = (\<not> x_le b a)" by blast
next
  fix a b c
  assume "\<not> x_isnan a \<and> \<not> x_isnan b \<and> \<not> x_isnan c \<and> x_le a b \<and> x_le b c"
  then show "x_le a c"
    by (cases a; cases b; cases c) auto
qed

lemma length4: "length ks = 4 \<Longrightarrow> \<exists>a b c d. ks = [a, b, c, d]"
proof -
  assume l: "length ks = 4"
  then obtain a r1 where 1: "ks = a # r1" by (cases ks) simp_all
  with l obtain b r2 where 2: "r1 = b # r2" by (cases r1) simp_all
  with l 1 obtain c r3 where 3: "r2 = c # r3" by (cases r2) simp_all
  with l 1 2 obtain d r4 where 4: "r3 = d # r4" by (cases r3) simp_all
  with l 1 2 3 have "r4 = []" by simp
  with 1 2 3 4 show ?thesis by simp
qed

lemma ce01:
  fixes ks :: "rat list"
  shows "\<exists>u v. compare_exchange (\<lambda>a b. a < b) ks [p, q, r, s] (0, 1) = [u, v, r, s]
            \<and> (u = p \<and> v = q \<or> u = q \<and> v = p) \<and> ks ! u \<le> ks ! v"
  by (auto simp: compare_exchange_def)

lemma ce23:
  fixes ks :: "rat list"
  shows "\<exists>u v. compare_exchange (\<lambda>a b. a < b) ks [p, q, r, s] (2, 3) = [p, q, u, v]
            \<and> (u = r \<and> v = s \<or> u = s \<and> v = r) \<and> ks ! u \<le> ks ! v"
  by (auto simp: compare_exchange_def numeral_2_eq_2 numeral_3_eq_3)

lemma ce03:
  fixes ks :: "rat list"
  shows "\<exists>u v. compare_exchange (\<lambda>a b. a < b) ks [p, q, r, s] (0, 3) = [u, q, r, v]
            \<and> (u = p \<and> v = s \<or> u = s \<and> v = p) \<and> ks ! u \<le> ks ! v"
  by (auto simp: compare_exchange_def numeral_2_eq_2 numeral_3_eq_3)

lemma ce12:
  fixes ks :: "rat list"
  shows "\<exists>u v. compare_exchange (\<lambda>a b. a < b) ks [p, q, r, s] (1, 2) = [p, u, v, s]
            \<and> (u = q \<and> v = r \<or> u = r \<and> v = q) \<and> ks ! u \<le> ks ! v"
  by (auto simp: compare_exchange_def numeral_2_eq_2 numeral_3_eq_3)

lemma bitonic4_rat:
  fixes ks :: "rat list"
  shows "mset (bitonic4 (\<lambda>a b. a < b) ks) = mset [0, 1, 2, 3]
       \<and> sorted_wrt (\<lambda>i j. ks ! i \<le> ks ! j) (bitonic4 (\<lambda>a b. a < b) ks)"
proof -
  let ?ce = "compare_exchange (\<lambda>a b. a < b) ks"
  from ce01 [of ks 0 1 2 3] obtain u0 v0 where
    e1: "?ce [0, 1, 2, 3] (0, 1) = [u0, v0, 2, 3]" and
    m1: "u0 = 0 \<and> v0 = 1 \<or> u0 = 1 \<and> v0 = 0" and o1: "ks ! u0 \<le> ks ! v0"
    by blast
  from ce23 [of ks u0 v0 2 3] obtain u1 v1 where
    e2: "?ce [u0, v0, 2, 3] (2, 3) = [u0, v0, u1, v1]" and
    m2: "u1 = 2 \<and> v1 = 3 \<or> u1 = 3 \<and> v1 = 2" and o2: "ks ! u1 \<le> ks ! v1"
    by blast
  from ce03 [of ks u0 v0 u1 v1] obtain w0 w3 where
    e3: "?ce [u0, v0, u1, v1] (0, 3) = [w0, v0, u1, w3]" and
    m3: "w0 = u0 \<and> w3 = v1 \<or> w0 = v1 \<and> w3 = u0" and o3: "ks ! w0 \<le> ks ! w3"
    by blast
  from ce12 [of ks w0 v0 u1 w3] obtain w1 w2 where
    e4: "?ce [w0, v0, u1, w3] (1, 2) = [w0, w1, w2, w3]" and
    m4: "w1 = v0 \<and> w2 = u1 \<or> w1 = u1 \<and> w2 = v0" and o4: "ks ! w1 \<le> ks ! w2"
    by blast
  from ce01 [of ks w0 w1 w2 w3] obtain y0 y1 where
    e5: "?ce [w0, w1, w2, w3] (0, 1) = [y0, y1, w2, w3]" and
    m5: "y0 = w0 \<and> y1 = w1 \<or> y0 = w1 \<and> y1 = w0" and o5: "ks ! y0 \<le> ks ! y1"
    by blast
  from ce23 [of ks y0 y1 w2 w3] obtain y2 y3 where
    e6: "?ce [y0, y1, w2, w3] (2, 3) = [y0, y1, y2, y3]" and
    m6: "y2 = w2 \<and> y3 = w3 \<or> y2 = w3 \<and> y3 = w2" and o6: "ks ! y2 \<le> ks ! y3"
    by blast
  have r: "bitonic4 (\<lambda>a b. a < b) ks = [y0, y1, y2, y3]"
    by (simp only: bitonic4_def foldl_Cons foldl_Nil e1 e2 e3 e4 e5 e6)
  have a: "ks ! w0 \<le> ks ! w2" using m3 m4 o1 o2 o3 o4 by auto
  have b: "ks ! w1 \<le> ks ! w3" using m3 m4 o1 o2 o3 o4 by auto
  have mid: "ks ! y1 \<le> ks ! y2" using m5 m6 a b o3 o4 by auto
  have s: "sorted_wrt (\<lambda>i j. ks ! i \<le> ks ! j) [y0, y1, y2, y3]"
    using o5 o6 mid by auto
  have "mset [w0, w1, w2, w3] = mset [0, 1, 2, 3]"
    using m1 m2 m3 m4 by auto
  moreover have "mset [y0, y1, y2, y3] = mset [w0, w1, w2, w3]"
    using m5 m6 by auto
  ultimately show ?thesis using r s by simp
qed

lemma vector_argsort_ascending:
  "argsort_ascending (\<lambda>a b :: rat. a \<le> b) (\<lambda>x. False) (vector_argsort (\<lambda>a b. a < b))"
  unfolding argsort_ascending_def
proof (intro allI impI)
  fix ks :: "rat list"
  show "mset (vector_argsort (\<lambda>a b. a < b) ks) = mset [0..<length ks]
      \<and> sorted_wrt (\<lambda>i j. ks ! i \<le> ks ! j) (vector_argsort (\<lambda>a b. a < b) ks)"
  proof (cases "length ks = 4")
    case True
    have "[0..<4] = [0, 1, 2, 3]" by (simp add: upt_rec)
    with True bitonic4_rat [of ks] show ?thesis by (simp add: vector_argsort_def)
  next
    case False
    have "argsort_ascending (\<lambda>a b :: rat. a \<le> b) (\<lambda>x. False) (insertion_argsort (\<lambda>a b. a < b))"
      by (rule insertion_argsort_ascending [OF rat_float_order])
    then have "mset (insertion_argsort (\<lambda>a b. a < b) ks) = mset [0..<length ks]
      \<and> sorted_wrt (\<lambda>i j. ks ! i \<le> ks ! j) (insertion_argsort (\<lambda>a b. a < b) ks)"
      unfolding argsort_ascending_def by simp
    with False show ?thesis by (simp add: vector_argsort_def)
  qed
qed

section \<open>Order of the table\<close>

lemma nth_filter_positions:
  "map (\<lambda>i. xs ! i) (filter (\<lambda>i. P (xs ! i)) [0..<length xs]) = filter P xs"
proof -
  have "filter P (map (\<lambda>i. xs ! i) [0..<length xs])
          = map (\<lambda>i. xs ! i) (filter (P \<circ> (\<lambda>i. xs ! i)) [0..<length xs])"
    by (rule filter_map)
  then show ?thesis by (simp add: map_nth comp_def)
qed

lemma take_permutation:
  assumes "mset a = mset [0..<length G]"
  shows "mset (map (\<lambda>i. G ! i) a) = mset G"
proof -
  have "mset (map (\<lambda>i. G ! i) a) = image_mset (\<lambda>i. G ! i) (mset a)" by simp
  also have "\<dots> = image_mset (\<lambda>i. G ! i) (mset [0..<length G])" by (simp only: assms)
  also have "\<dots> = mset (map (\<lambda>i. G ! i) [0..<length G])" by simp
  also have "\<dots> = mset G" by (simp only: map_nth)
  finally show ?thesis .
qed

lemma nargsort_rows:
  "nargsort isnan argsort (map Return_pct rows)
     = rev (map (\<lambda>i. rev (filter (\<lambda>i. \<not> isnan (Return_pct (rows ! i))) [0..<length rows]) ! i)
              (argsort (map (\<lambda>i. Return_pct (rows ! i))
                          (rev (filter (\<lambda>i. \<not> isnan (Return_pct (rows ! i))) [0..<length rows])))))
       @ filter (\<lambda>i. isnan (Return_pct (rows ! i))) [0..<length rows]"
proof -
  have f1: "filter (\<lambda>i. \<not> isnan (map Return_pct rows ! i)) [0..<length rows]
              = filter (\<lambda>i. \<not> isnan (Return_pct (rows ! i))) [0..<length rows]"
    by (rule filter_cong) simp_all
  have f2: "filter (\<lambda>i. isnan (map Return_pct rows ! i)) [0..<length rows]
              = filter (\<lambda>i. isnan (Return_pct (rows ! i))) [0..<length rows]"
    by (rule filter_cong) simp_all
  have m: "map (\<lambda>i. map Return_pct rows ! i)
               (rev (filter (\<lambda>i. \<not> isnan (Return_pct (rows ! i))) [0..<length rows]))
           = map (\<lambda>i. Return_pct (rows ! i))
               (rev (filter (\<lambda>i. \<not> isnan (Return_pct (rows ! i))) [0..<length rows]))"
    by (rule map_cong) simp_all
  show ?thesis
    unfolding nargsort_def Let_def length_map f1 f2 m ..
qed

lemma pandas_sort_values_shape:
  assumes "argsort_ascending le isnan argsort"
  shows "\<exists>H. pandas_sort_values isnan argsort rows
               = H @ filter (\<lambda>r. isnan (Return_pct r)) rows
           \<and> mset H = mset (filter (\<lambda>r. \<not> isnan (Return_pct r)) rows)
           \<and> sorted_wrt (\<lambda>a b. le (Return_pct b) (Return_pct a)) H"
proof -
  define gi where "gi = rev (filter (\<lambda>i. \<not> isnan (Return_pct (rows ! i))) [0..<length rows])"
  define ni where "ni = filter (\<lambda>i. isnan (Return_pct (rows ! i))) [0..<length rows]"
  define G where "G = rev (filter (\<lambda>r. \<not> isnan (Return_pct r)) rows)"
  define keys where "keys = map (\<lambda>i. Return_pct (rows ! i)) gi"
  define a where "a = argsort keys"
  define H where "H = rev (map (\<lambda>i. G ! i) a)"
  have G: "map (\<lambda>i. rows ! i) gi = G"
    unfolding gi_def G_def rev_map [symmetric]
    by (simp only: nth_filter_positions [of rows "\<lambda>r. \<not> isnan (Return_pct r)"])
  have N: "map (\<lambda>i. rows ! i) ni = filter (\<lambda>r. isnan (Return_pct r)) rows"
    unfolding ni_def by (rule nth_filter_positions)
  have lg: "length gi = length G"
    using arg_cong [OF G, of length] by simp
  have keys: "keys = map Return_pct G"
  proof -
    have "map Return_pct (map (\<lambda>i. rows ! i) gi) = keys"
      unfolding keys_def by (simp add: comp_def)
    then show ?thesis by (simp only: G)
  qed
  have nonan: "\<forall>k \<in> set keys. \<not> isnan k"
    unfolding keys G_def by auto
  from assms nonan have perm: "mset a = mset [0..<length keys]"
    and srt: "sorted_wrt (\<lambda>i j. le (keys ! i) (keys ! j)) a"
    unfolding argsort_ascending_def a_def by blast+
  have lk: "length keys = length G" unfolding keys by simp
  have a_lt: "\<forall>i \<in> set a. i < length G"
  proof -
    have "set a = set [0..<length keys]" using perm by (rule mset_eq_setD)
    then show ?thesis unfolding lk by simp
  qed
  have nth_G: "\<And>i. i \<in> set a \<Longrightarrow> rows ! (gi ! i) = G ! i"
  proof -
    fix i assume "i \<in> set a"
    then have i: "i < length gi" using a_lt lg by simp
    have "G ! i = map (\<lambda>i. rows ! i) gi ! i" by (simp only: G)
    also have "\<dots> = rows ! (gi ! i)" using i by (rule nth_map)
    finally show "rows ! (gi ! i) = G ! i" by simp
  qed
  have take: "map (\<lambda>i. rows ! i) (map (\<lambda>i. gi ! i) a) = map (\<lambda>i. G ! i) a"
    using nth_G by (simp add: comp_def)
  have "pandas_sort_values isnan argsort rows
          = map (\<lambda>i. rows ! i) (rev (map (\<lambda>i. gi ! i) a) @ ni)"
    unfolding pandas_sort_values_def nargsort_rows a_def keys_def gi_def ni_def ..
  also have "\<dots> = rev (map (\<lambda>i. rows ! i) (map (\<lambda>i. gi ! i) a)) @ map (\<lambda>i. rows ! i) ni"
    by (simp only: map_append rev_map)
  also have "\<dots> = H @ filter (\<lambda>r. isnan (Return_pct r)) rows"
    unfolding H_def by (simp only: take N)
  finally have eq: "pandas_sort_values isnan argsort rows
                      = H @ filter (\<lambda>r. isnan (Return_pct r)) rows" .
  have "mset (map (\<lambda>i. G ! i) a) = mset G"
    by (rule take_permutation) (simp only: perm lk)
  then have ms: "mset H = mset (filter (\<lambda>r. \<not> isnan (Return_pct r)) rows)"
    unfolding H_def G_def by simp
  have "sorted_wrt (\<lambda>i j. le (Return_pct (G ! i)) (Return_pct (G ! j))) a"
  proof (rule sorted_wrt_mono_rel [OF _ srt])
    fix i j assume "i \<in> set a" "j \<in> set a" "le (keys ! i) (keys ! j)"
    then show "le (Return_pct (G ! i)) (Return_pct (G ! j))"
      using a_lt unfolding keys by simp
  qed
  then have "sorted_wrt (\<lambda>x y. le (Return_pct x) (Return_pct y)) (map (\<lambda>i. G ! i) a)"
    by (simp add: sorted_wrt_map)
  then have so: "sorted_wrt (\<lambda>a b. le (Return_pct b) (Return_pct a)) H"
    unfolding H_def by (simp add: sorted_wrt_rev)
  from eq ms so show ?thesis by blast
qed

lemma sort_vector_is_pandas:
  "sort_values (example_externals sort_vector)
     = pandas_sort_values (\<lambda>x. False) (vector_argsort (\<lambda>a b. a < b))"
  by (rule ext) (simp add: example_externals_def sort_vector_def)

text \<open>
  Claim C3 says that rows with equal returns keep the order of the input list. The call
  \<^verbatim>\<open>sort_values('Return (%)', ascending=False)\<close> leaves the algorithm at the default,
  numpy's quicksort, which is not stable. With the vector routine, the symbols FINE1,
  TWICE, AAPL, TIED (returns 1, 2, 5, 5) come out as TIED, AAPL, TWICE, FINE1: TIED stands
  before AAPL although AAPL comes first in the input. For the two symbols AAPL, TIED alone
  the order of the input is kept.
\<close>

theorem tie_order_counterexample:
  "collected (example_externals sort_vector) tuesday monday ''10:30''
       [''FINE1'', ''TWICE'', ''AAPL'', ''TIED'']
     = [\<lparr>Symbol = ''FINE1'', Previous_Close = 1000, Target_Price = 101001 / 100, Return_pct = 1\<rparr>,
        \<lparr>Symbol = ''TWICE'', Previous_Close = 50, Target_Price = 51, Return_pct = 2\<rparr>,
        \<lparr>Symbol = ''AAPL'', Previous_Close = 100, Target_Price = 105, Return_pct = 5\<rparr>,
        \<lparr>Symbol = ''TIED'', Previous_Close = 200, Target_Price = 210, Return_pct = 5\<rparr>]
   \<and> calculate_stock_returns (example_externals sort_vector)
        [''FINE1'', ''TWICE'', ''AAPL'', ''TIED''] tuesday ''10:30''
       = Inr \<lparr>results =
                [\<lparr>Symbol = ''TIED'', Previous_Close = 200, Target_Price = 210, Return_pct = 5\<rparr>,
                 \<lparr>Symbol = ''AAPL'', Previous_Close = 100, Target_Price = 105, Return_pct = 5\<rparr>,
                 \<lparr>Symbol = ''TWICE'', Previous_Close = 50, Target_Price = 51, Return_pct = 2\<rparr>,
                 \<lparr>Symbol = ''FINE1'', Previous_Close = 1000, Target_Price = 101001 / 100,
                    Return_pct = 1\<rparr>],
              requests = [(''FINE1'', monday, tuesday + 1), (''TWICE'', monday, tuesday + 1),
                          (''AAPL'', monday, tuesday + 1), (''TIED'', monday, tuesday + 1)]\<rparr>
   \<and> \<not> ties_in_input_order
         [\<lparr>Symbol = ''FINE1'', Previous_Close = 1000 :: rat, Target_Price = 101001 / 100,
            Return_pct = 1\<rparr>,
          \<lparr>Symbol = ''TWICE'', Previous_Close = 50, Target_Price = 51, Return_pct = 2\<rparr>,
          \<lparr>Symbol = ''AAPL'', Previous_Close = 100, Target_Price = 105, Return_pct = 5\<rparr>,
          \<lparr>Symbol = ''TIED'', Previous_Close = 200, Target_Price = 210, Return_pct = 5\<rparr>]
         [\<lparr>Symbol = ''TIED'', Previous_Close = 200, Target_Price = 210, Return_pct = 5\<rparr>,
          \<lparr>Symbol = ''AAPL'', Previous_Close = 100, Target_Price = 105, Return_pct = 5\<rparr>,
          \<lparr>Symbol = ''TWICE'', Previous_Close = 50, Target_Price = 51, Return_pct = 2\<rparr>,
          \<lparr>Symbol = ''FINE1'', Previous_Close = 1000, Target_Price = 101001 / 100, Return_pct = 1\<rparr>]
   \<and> calculate_stock_returns (example_externals sort_vector) [''AAPL'', ''TIED''] tuesday ''10:30''
       = Inr \<lparr>results =
                [\<lparr>Symbol = ''AAPL'', Previous_Close = 100, Target_Price = 105, Return_pct = 5\<rparr>,
                 \<lparr>Symbol = ''TIED'', Previous_Close = 200, Target_Price = 210, Return_pct = 5\<rparr>],
              requests = [(''AAPL'', monday, tuesday + 1), (''TIED'', monday, tuesday + 1)]\<rparr>"
  by (intro conjI; code_simp)

text \<open>
  Claim C3, amended. The table the function returns holds exactly the rows collected for
  the symbols that went through: first the rows whose return is not NaN, every row
  standing before the rows of lower or equal return, then the rows whose return is NaN, in
  the order of the input list. Nothing is said about the order of rows with equal
  returns. This rests on pandas ordering the frame as \<open>pandas_sort_values\<close> does and
  on numpy's \<^verbatim>\<open>argsort\<close> returning the positions of NaN-free values in ascending order.
\<close>

theorem table_sorted_descending:
  assumes "sort_values X = pandas_sort_values isnan argsort"
    and "argsort_ascending le isnan argsort"
    and "weekday target_date < 5"
    and "prev_day_of target_date = Inr prev_day"
  shows "\<exists>out H.
           calculate_stock_returns X stock_list target_date comparison_time = Inr out
         \<and> results out
             = H @ filter (\<lambda>r. isnan (Return_pct r))
                     (collected X target_date prev_day comparison_time stock_list)
         \<and> mset H
             = mset (filter (\<lambda>r. \<not> isnan (Return_pct r))
                       (collected X target_date prev_day comparison_time stock_list))
         \<and> sorted_wrt (\<lambda>a b. le (Return_pct b) (Return_pct a)) H"
proof -
  let ?c = "collected X target_date prev_day comparison_time stock_list"
  let ?out = "\<lparr>results = (if ?c = [] then [] else sort_values X ?c),
               requests = requests (for_loop X target_date prev_day comparison_time stock_list
                                      \<lparr>results = [], requests = []\<rparr>)\<rparr>"
  have eq: "calculate_stock_returns X stock_list target_date comparison_time = Inr ?out"
    by (rule calculate_weekday [OF assms(3) assms(4)])
  show ?thesis
  proof (cases "?c = []")
    case True
    then have "results ?out = [] @ filter (\<lambda>r. isnan (Return_pct r)) ?c
             \<and> mset [] = mset (filter (\<lambda>r. \<not> isnan (Return_pct r)) ?c)
             \<and> sorted_wrt (\<lambda>a b. le (Return_pct b) (Return_pct a)) []"
      by simp
    with eq show ?thesis by blast
  next
    case False
    from pandas_sort_values_shape [OF assms(2), of ?c] obtain H where
      h: "pandas_sort_values isnan argsort ?c = H @ filter (\<lambda>r. isnan (Return_pct r)) ?c"
         "mset H = mset (filter (\<lambda>r. \<not> isnan (Return_pct r)) ?c)"
         "sorted_wrt (\<lambda>a b. le (Return_pct b) (Return_pct a)) H"
      by blast
    from False have "results ?out = pandas_sort_values isnan argsort ?c"
      by (simp add: assms(1))
    with h eq show ?thesis by metis
  qed
qed

theorem table_sorted_descending_witness:
  "sort_values x_externals = pandas_sort_values x_isnan (insertion_argsort x_lt)
   \<and> argsort_ascending x_le x_isnan (insertion_argsort x_lt)
   \<and> weekday tuesday < 5 \<and> prev_day_of tuesday = Inr monday
   \<and> calculate_stock_returns x_externals [''SLOW'', ''VOID'', ''ZERO'', ''NONE'', ''GAIN'']
        tuesday ''10:30''
       = Inr \<lparr>results =
                [\<lparr>Symbol = ''ZERO'', Previous_Close = Fin 0, Target_Price = Fin 105,
                    Return_pct = PInf\<rparr>,
                 \<lparr>Symbol = ''GAIN'', Previous_Close = Fin 100, Target_Price = Fin 105,
                    Return_pct = Fin 5\<rparr>,
                 \<lparr>Symbol = ''SLOW'', Previous_Close = Fin 50, Target_Price = Fin 51,
                    Return_pct = Fin 2\<rparr>,
                 \<lparr>Symbol = ''VOID'', Previous_Close = Fin 0, Target_Price = Fin 0,
                    Return_pct = NaN\<rparr>],
              requests = [(''SLOW'', monday, tuesday + 1), (''VOID'', monday, tuesday + 1),
                          (''ZERO'', monday, tuesday + 1), (''NONE'', monday, tuesday + 1),
                          (''GAIN'', monday, tuesday + 1)]\<rparr>
   \<and> filter (\<lambda>r. x_isnan (Return_pct r))
        (collected x_externals tuesday monday ''10:30'' [''SLOW'', ''VOID'', ''ZERO'', ''NONE'', ''GAIN''])
       = [\<lparr>Symbol = ''VOID'', Previous_Close = Fin 0, Target_Price = Fin 0, Return_pct = NaN\<rparr>]
   \<and> sorted_wrt (\<lambda>a b. x_le (Return_pct b) (Return_pct a))
        [\<lparr>Symbol = ''ZERO'', Previous_Close = Fin 0, Target_Price = Fin 105, Return_pct = PInf\<rparr>,
         \<lparr>Symbol = ''GAIN'', Previous_Close = Fin 100, Target_Price = Fin 105, Return_pct = Fin 5\<rparr>,
         \<lparr>Symbol = ''SLOW'', Previous_Close = Fin 50, Target_Price = Fin 51, Return_pct = Fin 2\<rparr>]"
proof -
  let ?syms = "[''SLOW'', ''VOID'', ''ZERO'', ''NONE'', ''GAIN'']"
  let ?zero = "\<lparr>Symbol = ''ZERO'', Previous_Close = Fin 0, Target_Price = Fin 105, Return_pct = PInf\<rparr>"
  let ?gain = "\<lparr>Symbol = ''GAIN'', Previous_Close = Fin 100, Target_Price = Fin 105, Return_pct = Fin 5\<rparr>"
  let ?slow = "\<lparr>Symbol = ''SLOW'', Previous_Close = Fin 50, Target_Price = Fin 51, Return_pct = Fin 2\<rparr>"
  let ?void = "\<lparr>Symbol = ''VOID'', Previous_Close = Fin 0, Target_Price = Fin 0, Return_pct = NaN\<rparr>"
  let ?req = "[(''SLOW'', monday, tuesday + 1), (''VOID'', monday, tuesday + 1),
               (''ZERO'', monday, tuesday + 1), (''NONE'', monday, tuesday + 1),
               (''GAIN'', monday, tuesday + 1)]"
  have h1: "sort_values x_externals = pandas_sort_values x_isnan (insertion_argsort x_lt)"
    by (simp add: x_externals_def)
  have h2: "argsort_ascending x_le x_isnan (insertion_argsort x_lt)"
    by (rule insertion_argsort_ascending [OF x_float_order])
  have h3: "weekday tuesday < 5" by code_simp
  have h4: "prev_day_of tuesday = Inr monday" by code_simp
  have c: "calculate_stock_returns x_externals ?syms tuesday ''10:30''
             = Inr \<lparr>results = [?zero, ?gain, ?slow, ?void], requests = ?req\<rparr>"
    by code_simp
  have n: "filter (\<lambda>r. x_isnan (Return_pct r)) (collected x_externals tuesday monday ''10:30'' ?syms)
             = [?void]"
    by code_simp
  from table_sorted_descending [OF h1 h2 h3 h4, of ?syms "''10:30''"] obtain out H where
    o: "calculate_stock_returns x_externals ?syms tuesday ''10:30'' = Inr out" and
    r: "results out = H @ filter (\<lambda>r. x_isnan (Return_pct r))
                            (collected x_externals tuesday monday ''10:30'' ?syms)" and
    s: "sorted_wrt (\<lambda>a b. x_le (Return_pct b) (Return_pct a)) H"
    by (elim exE conjE)
  from o c have "out = \<lparr>results = [?zero, ?gain, ?slow, ?void], requests = ?req\<rparr>" by simp
  with r n have "[?zero, ?gain, ?slow, ?void] = H @ [?void]" by simp
  then have "H = [?zero, ?gain, ?slow]" by (cases H rule: rev_cases) simp_all
  with s have "sorted_wrt (\<lambda>a b. x_le (Return_pct b) (Return_pct a)) [?zero, ?gain, ?slow]"
    by simp
  with h1 h2 h3 h4 c n show ?thesis by (intro conjI)
qed

section \<open>The sort key is the rounded return\<close>






section \<open>The symbol list handed to the calculator\<close>

lemma split_on_no_sep: "c \<notin> set l \<Longrightarrow> split_on c l = [l]"
  by (induction l) auto

lemma split_on_append:
  "c \<notin> set l \<Longrightarrow> split_on c (l @ c # rest) = l # split_on c rest"
  by (induction l) auto

lemma split_join:
  "\<forall>l \<in> set ls. newline \<notin> set l \<Longrightarrow> ls \<noteq> [] \<Longrightarrow> split_on newline (join_lines ls) = ls"
proof (induction ls rule: join_lines.induct)
  case 1
  then show ?case by simp
next
  case (2 l)
  then show ?case by (simp add: split_on_no_sep)
next
  case (3 l v va)
  then show ?case by (simp add: split_on_append)
qed

lemma join_empty:
  "join_lines ls = [] \<Longrightarrow> ls = [] \<or> ls = [[]]"
  by (induction ls rule: join_lines.induct) auto

lemma strip_empty: "strip [] = []"
  by (simp add: strip_def)

text \<open>
  Claim C7, amended. The list that main hands to the calculator is made from the lines of
  the text by trimming white space, upper-casing and dropping blank lines, in the order of
  the lines; a symbol that the text repeats is repeated in the list.
\<close>

theorem symbol_list_keeps_duplicates:
  assumes "\<forall>l \<in> set lines. newline \<notin> set l"
  shows "stocks_list_of (join_lines lines)
           = map (\<lambda>l. upper (strip l)) (filter (\<lambda>l. strip l \<noteq> []) lines)"
proof (cases "join_lines lines = []")
  case True
  then have "lines = [] \<or> lines = [[]]" by (rule join_empty)
  then show ?thesis using True by (auto simp: stocks_list_of_def strip_empty)
next
  case False
  then have "lines \<noteq> []" by auto
  with assms have "split_on newline (join_lines lines) = lines" by (rule split_join)
  with False show ?thesis by (simp add: stocks_list_of_def)
qed

text \<open>
  Claim C7 says that the list holds no symbol twice. The comprehension at line 134 has no
  such step: a text with the lines \<^verbatim>\<open>aapl\<close> and \<^verbatim>\<open>AAPL\<close> gives AAPL twice.
\<close>

theorem duplicates_counterexample:
  "stocks_list_of (''aapl '' @ [newline] @ [newline] @ '' AAPL'') = [''AAPL'', ''AAPL'']
   \<and> \<not> distinct (stocks_list_of (''aapl '' @ [newline] @ [newline] @ '' AAPL''))"
  by code_simp

theorem symbol_list_keeps_duplicates_witness:
  "newline \<notin> set ''aapl '' \<and> newline \<notin> set '''' \<and> newline \<notin> set ''Msft'' \<and> newline \<notin> set '' AAPL''
   \<and> join_lines [''aapl '', '''', ''Msft'', '' AAPL'']
       = ''aapl '' @ [newline] @ [newline] @ ''Msft'' @ [newline] @ '' AAPL''
   \<and> stocks_list_of (join_lines [''aapl '', '''', ''Msft'', '' AAPL''])
       = [''AAPL'', ''MSFT'', ''AAPL'']"
proof -
  have n: "\<forall>l \<in> set [''aapl '', '''', ''Msft'', '' AAPL'']. newline \<notin> set l"
    by (simp add: newline_def)
  have j: "join_lines [''aapl '', '''', ''Msft'', '' AAPL'']
       = ''aapl '' @ [newline] @ [newline] @ ''Msft'' @ [newline] @ '' AAPL''"
    by simp
  have m: "map (\<lambda>l. upper (strip l)) (filter (\<lambda>l. strip l \<noteq> []) [''aapl '', '''', ''Msft'', '' AAPL''])
             = [''AAPL'', ''MSFT'', ''AAPL'']"
    by code_simp
  from symbol_list_keeps_duplicates [OF n]
  have "stocks_list_of (join_lines [''aapl '', '''', ''Msft'', '' AAPL''])
       = [''AAPL'', ''MSFT'', ''AAPL'']"
    unfolding m .
  with n j show ?thesis by simp
qed

end
